theory Spec2Isabelle
  imports Complex_Main "HOL-Library.Sublist"
begin

section \<open>Strings\<close>

text \<open>
  A Go string is modelled by the sequence of its Unicode code points (what the source
  obtains by ranging over the string, and what \<^verbatim>\<open>strings\<close>, \<^verbatim>\<open>unicode\<close> and
  \<^verbatim>\<open>regexp\<close> work on for valid UTF-8 text). \<open>str\<close> turns an Isabelle string literal
  into such a sequence.
\<close>

type_synonym rune = nat
type_synonym gostring = "rune list"

definition str :: "string \<Rightarrow> gostring" where
  "str s = map of_char s"

text \<open>
  The case-mapping and punctuation tables of Go's \<^verbatim>\<open>unicode\<close> package are not part of
  the repository; the functions that consult them take them as a parameter.
  \<open>asciiTables\<close> gives both on U+0000..U+007F, where they are exact:
  \<^verbatim>\<open>unicode.ToLower\<close> maps A..Z to a..z, and \<^verbatim>\<open>unicode.IsPunct\<close> holds of the
  characters of category P, \<^verbatim>\<open>! " # % & ' ( ) * , - . / : ; ? @ [ \ ] _ { }\<close>.
\<close>

record unicode =
  toLower :: "rune \<Rightarrow> rune"
  isPunct :: "rune \<Rightarrow> bool"

definition asciiTables :: unicode where
  "asciiTables =
     \<lparr> toLower = (\<lambda>r. if 65 \<le> r \<and> r \<le> 90 then r + 32 else r),
       isPunct = (\<lambda>r. r \<in> {33, 34, 35, 37, 38, 39, 40, 41, 42, 44, 45, 46, 47,
                              58, 59, 63, 64, 91, 92, 93, 95, 123, 125}) \<rparr>"

text \<open>\<^verbatim>\<open>unicode.IsSpace\<close>: the White_Space property, written out in full.\<close>

definition isSpace :: "rune \<Rightarrow> bool" where
  "isSpace r \<longleftrightarrow>
     r \<in> {9, 10, 11, 12, 13, 32, 133, 160, 5760, 8232, 8233, 8239, 8287, 12288}
     \<or> (8192 \<le> r \<and> r \<le> 8202)"

text \<open>The class \<^verbatim>\<open>\d\<close> of Go's regexp syntax: the ASCII digits.\<close>

definition isDigit :: "rune \<Rightarrow> bool" where
  "isDigit r \<longleftrightarrow> 48 \<le> r \<and> r \<le> 57"

definition trimRightFunc :: "gostring \<Rightarrow> (rune \<Rightarrow> bool) \<Rightarrow> gostring" where
  "trimRightFunc s f = rev (dropWhile f (rev s))"

definition trimSpace :: "gostring \<Rightarrow> gostring" where
  "trimSpace s = trimRightFunc (dropWhile isSpace s) isSpace"

definition hasPrefix :: "gostring \<Rightarrow> gostring \<Rightarrow> bool" where
  "hasPrefix s p \<longleftrightarrow> take (length p) s = p"

text \<open>\<^verbatim>\<open>strings.TrimPrefix\<close>: \<open>s\<close> without the prefix \<open>p\<close>, or \<open>s\<close> itself.\<close>

definition trimPrefix :: "gostring \<Rightarrow> gostring \<Rightarrow> gostring" where
  "trimPrefix s p = (if hasPrefix s p then drop (length p) s else s)"

text \<open>\<^verbatim>\<open>strings.Contains\<close>: \<open>sub\<close> occurs in \<open>s\<close>.\<close>

fun contains :: "gostring \<Rightarrow> gostring \<Rightarrow> bool" where
  "contains [] sub = (sub = [])"
| "contains (c # cs) sub = (hasPrefix (c # cs) sub \<or> contains cs sub)"

text \<open>
  \<^verbatim>\<open>strings.ReplaceAll(s, old, "")\<close> for a one-character \<open>old\<close>: every occurrence of the
  character is deleted.
\<close>

definition removeRune :: "rune \<Rightarrow> gostring \<Rightarrow> gostring" where
  "removeRune r s = filter (\<lambda>c. c \<noteq> r) s"

text \<open>
  \<^verbatim>\<open>strings.Fields\<close>: the maximal runs of non-space characters, in order.
\<close>

function Fields :: "gostring \<Rightarrow> gostring list" where
  "Fields s =
     (let s' = dropWhile isSpace s
      in if s' = [] then []
         else takeWhile (\<lambda>c. \<not> isSpace c) s' # Fields (dropWhile (\<lambda>c. \<not> isSpace c) s'))"
  by pat_completeness auto
termination
proof (relation "measure length")
  fix s s' :: gostring
  assume s': "s' = dropWhile isSpace s" and ne: "s' \<noteq> []"
  from ne s' have "\<not> isSpace (hd s')"
    using hd_dropWhile by metis
  with ne have "dropWhile (\<lambda>c. \<not> isSpace c) s' = dropWhile (\<lambda>c. \<not> isSpace c) (tl s')"
    by (cases s') auto
  then have "length (dropWhile (\<lambda>c. \<not> isSpace c) s') \<le> length (tl s')"
    using length_dropWhile_le [of "\<lambda>c. \<not> isSpace c" "tl s'"] by simp
  also from ne have "\<dots> < length s'" by (cases s') auto
  also from s' have "\<dots> \<le> length s" by (simp add: length_dropWhile_le)
  finally show "(dropWhile (\<lambda>c. \<not> isSpace c) s', s) \<in> measure length" by simp
qed simp

declare Fields.simps [simp del]

text \<open>A word as \<^verbatim>\<open>strings.Fields\<close> yields it: not empty and free of white space.\<close>

definition wordlike :: "gostring \<Rightarrow> bool" where
  "wordlike w \<longleftrightarrow> w \<noteq> [] \<and> (\<forall>c\<in>set w. \<not> isSpace c)"

text \<open>\<^verbatim>\<open>strings.Join(ws, " ")\<close>.\<close>

fun joinSpace :: "gostring list \<Rightarrow> gostring" where
  "joinSpace [] = []"
| "joinSpace [w] = w"
| "joinSpace (w # v # ws) = w @ 32 # joinSpace (v # ws)"

section \<open>The answer normalizer (gaia/evaluator.go)\<close>

text \<open>
  The regular expression \<^verbatim>\<open>(\d),(\d{3})\<close>. \<open>matchAt s\<close>: it matches at the start of
  \<open>s\<close>. \<open>matchString\<close> is \<^verbatim>\<open>re.MatchString\<close>: it matches somewhere.
  \<open>replaceAllString\<close> is \<^verbatim>\<open>re.ReplaceAllString(s, "$1$2")\<close>: scanning from the
  left, every match is replaced by its two groups and the scan resumes after the match.
\<close>

definition matchAt :: "gostring \<Rightarrow> bool" where
  "matchAt s \<longleftrightarrow>
     (case s of a # b # c # d # e # _ \<Rightarrow>
                  isDigit a \<and> b = 44 \<and> isDigit c \<and> isDigit d \<and> isDigit e
              | _ \<Rightarrow> False)"

fun matchString :: "gostring \<Rightarrow> bool" where
  "matchString [] = False"
| "matchString (x # xs) = (matchAt (x # xs) \<or> matchString xs)"

fun replaceAllString :: "gostring \<Rightarrow> gostring" where
  "replaceAllString [] = []"
| "replaceAllString (x # xs) =
     (if matchAt (x # xs) then x # take 3 (tl xs) @ replaceAllString (drop 4 xs)
      else x # replaceAllString xs)"

lemma length_replaceAllString_le: "length (replaceAllString s) \<le> length s"
proof (induction s rule: replaceAllString.induct)
  case 1
  show ?case by simp
next
  case (2 x xs)
  show ?case
  proof (cases "matchAt (x # xs)")
    case True
    then have len: "4 \<le> length xs"
      by (auto simp: matchAt_def split: list.splits)
    from True 2 have "length (replaceAllString (drop 4 xs)) \<le> length xs - 4" by simp
    with True len show ?thesis by simp
  next
    case False
    with 2 show ?thesis by simp
  qed
qed

lemma length_replaceAllString_less:
  "matchString s \<Longrightarrow> length (replaceAllString s) < length s"
proof (induction s rule: replaceAllString.induct)
  case 1
  then show ?case by simp
next
  case (2 x xs)
  show ?case
  proof (cases "matchAt (x # xs)")
    case True
    then have len: "4 \<le> length xs"
      by (auto simp: matchAt_def split: list.splits)
    have "length (replaceAllString (drop 4 xs)) \<le> length xs - 4"
      using length_replaceAllString_le [of "drop 4 xs"] by simp
    with True len show ?thesis by simp
  next
    case False
    with 2 show ?thesis by simp
  qed
qed

text \<open>
  \<^verbatim>\<open>removeNumberCommas\<close>: the loop \<^verbatim>\<open>for re.MatchString(s) { s = re.ReplaceAllString(s, "$1$2") }\<close>.
\<close>

function removeNumberCommas :: "gostring \<Rightarrow> gostring" where
  "removeNumberCommas s =
     (if matchString s then removeNumberCommas (replaceAllString s) else s)"
  by pat_completeness auto
termination
  by (relation "measure length") (simp_all add: length_replaceAllString_less)

declare removeNumberCommas.simps [simp del]

text \<open>
  The article loop of \<^verbatim>\<open>normalizeAnswer\<close>: the first article that is a prefix is cut
  off and the loop is left (\<^verbatim>\<open>break\<close>).
\<close>

fun stripArticle :: "gostring list \<Rightarrow> gostring \<Rightarrow> gostring" where
  "stripArticle [] answer = answer"
| "stripArticle (article # rest) answer =
     (if hasPrefix answer article then trimPrefix answer article
      else stripArticle rest answer)"

definition articles :: "gostring list" where
  "articles = [str ''the '', str ''a '', str ''an '']"

text \<open>
  \<^verbatim>\<open>normalizeAnswer\<close>. The five deleted symbols are \<^verbatim>\<open>$\<close> (U+0024), \<^verbatim>\<open>%\<close> (U+0025),
  the yen sign (U+00A5), the euro sign (U+20AC) and the pound sign (U+00A3).
\<close>

definition normalizeAnswer :: "unicode \<Rightarrow> gostring \<Rightarrow> gostring" where
  "normalizeAnswer U answer =
     (let a1 = map (toLower U) (trimSpace answer);
          a2 = stripArticle articles a1;
          a3 = trimRightFunc a2 (isPunct U);
          a4 = removeRune 163 (removeRune 8364 (removeRune 165 (removeRune 37 (removeRune 36 a3))));
          a5 = removeNumberCommas a4
      in joinSpace (Fields a5))"


section \<open>The data model (pkg/evaluation)\<close>

text \<open>
  A value of type \<^verbatim>\<open>interface{}\<close> as \<^verbatim>\<open>encoding/json\<close> produces it: \<^verbatim>\<open>nil\<close>, a
  \<^verbatim>\<open>bool\<close>, a \<^verbatim>\<open>float64\<close>, a \<^verbatim>\<open>string\<close>, a \<^verbatim>\<open>[]interface{}\<close> or a
  \<^verbatim>\<open>map[string]interface{}\<close>. A Go map is given by the list of its bindings (the keys of a
  map are pairwise distinct; the order is the one in which a \<^verbatim>\<open>range\<close> loop visits
  them, which Go leaves open). A \<^verbatim>\<open>float64\<close> is modelled by the real number it stands
  for, and float arithmetic by exact arithmetic.
\<close>

datatype json =
    JNull
  | JBool bool
  | JNum real
  | JStr gostring
  | JArr "json list"
  | JObj "(gostring \<times> json) list"

record FunctionCall =
  Name :: gostring
  Arguments :: "(gostring \<times> json) list"

record JudgeScore =
  Correctness :: real
  Clarity :: real
  DifficultyMatch :: real
  Completeness :: real
  TotalScore :: real
  Comments :: gostring

text \<open>
  \<^verbatim>\<open>Sample\<close> (the fields \<^verbatim>\<open>Metadata\<close>, \<^verbatim>\<open>Tools\<close> and \<^verbatim>\<open>Files\<close> only reach the agent's
  input and are left out).
\<close>

record Sample =
  ID :: gostring
  Input :: gostring
  Expected :: json
  Category :: gostring
  Level :: int

text \<open>What an evaluator stores in \<^verbatim>\<open>SampleResult.Predicted\<close> and in the \<^verbatim>\<open>Details\<close> map.\<close>

datatype dynamic =
    DNil
  | DBool bool
  | DInt int
  | DNum real
  | DStr gostring
  | DJson json
  | DCalls "FunctionCall list"
  | DJudge JudgeScore

text \<open>
  \<^verbatim>\<open>SampleResult\<close> (without \<^verbatim>\<open>ExecutionTime\<close>, a clock reading). A freshly made result
  holds Go's zero values: \<^verbatim>\<open>false\<close>, \<^verbatim>\<open>0\<close>, the empty string, \<^verbatim>\<open>nil\<close>.
\<close>

record SampleResult =
  SampleID :: gostring
  Predicted :: dynamic
  Expected :: json
  Success :: bool
  PartialSuccess :: bool
  Score :: real
  Category :: gostring
  Level :: int
  Error :: gostring
  Details :: "(gostring \<times> dynamic) list"
  AgentResponse :: gostring

definition zeroResult :: SampleResult where
  "zeroResult =
     \<lparr> SampleID = [], Predicted = DNil, Expected = JNull, Success = False,
       PartialSuccess = False, Score = 0, Category = [], Level = 0, Error = [],
       Details = [], AgentResponse = [] \<rparr>"

text \<open>Assignment to a key of a Go map: \<^verbatim>\<open>m[k] = v\<close>.\<close>

fun mapSet :: "('k \<times> 'v) list \<Rightarrow> 'k \<Rightarrow> 'v \<Rightarrow> ('k \<times> 'v) list" where
  "mapSet [] k v = [(k, v)]"
| "mapSet ((k', v') # m) k v = (if k' = k then (k, v) # m else (k', v') # mapSet m k v)"

text \<open>
  What a call of the agent (or of the judge model) comes back with: \<open>Inl msg\<close> is an error
  with the message \<open>msg\<close>, \<open>Inr text\<close> a response.
\<close>

type_synonym outcome = "gostring + gostring"

section \<open>Text matching (gaia/evaluator.go)\<close>

text \<open>
  The loop over \<^verbatim>\<open>expectedWords\<close> that counts the words occurring in the prediction;
  the last argument is \<^verbatim>\<open>matchedCount\<close>.
\<close>

fun countMatched :: "gostring \<Rightarrow> gostring list \<Rightarrow> nat \<Rightarrow> nat" where
  "countMatched normalizedPred [] matchedCount = matchedCount"
| "countMatched normalizedPred (word # ws) matchedCount =
     countMatched normalizedPred ws
       (if contains normalizedPred word then matchedCount + 1 else matchedCount)"

text \<open>
  \<^verbatim>\<open>evaluateMatch\<close> of the GAIA evaluator. The coverage is a quotient of two counts
  compared with \<^verbatim>\<open>0.7\<close>; on counts below \<open>10^15\<close> the comparison of the rounded
  \<^verbatim>\<open>float64\<close> values and the comparison of the exact quotient with \<open>7/10\<close> agree.
\<close>

definition gaia_evaluateMatch :: "unicode \<Rightarrow> gostring \<Rightarrow> gostring \<Rightarrow> bool \<times> bool" where
  "gaia_evaluateMatch U predicted expected =
     (let normalizedPred = normalizeAnswer U predicted;
          normalizedExp = normalizeAnswer U expected
      in if normalizedPred = normalizedExp then (True, True)
         else if contains normalizedPred normalizedExp \<or> contains normalizedExp normalizedPred
           then (False, True)
         else let expectedWords = Fields normalizedExp
              in if length expectedWords > 0
                    \<and> real (countMatched normalizedPred expectedWords 0)
                         / real (length expectedWords) \<ge> 7 / 10
                 then (False, True)
                 else (False, False))"

text \<open>\<^verbatim>\<open>strings.Split(s, "\n")\<close>.\<close>

fun splitLines :: "gostring \<Rightarrow> gostring list" where
  "splitLines [] = [[]]"
| "splitLines (c # cs) =
     (if c = 10 then [] # splitLines cs
      else (case splitLines cs of l # ls \<Rightarrow> (c # l) # ls | [] \<Rightarrow> [[c]]))"

text \<open>The fallback loop of \<^verbatim>\<open>extractAnswer\<close>, over the lines from the last to the first.\<close>

fun lastNonEmptyLine :: "gostring list \<Rightarrow> gostring option" where
  "lastNonEmptyLine [] = None"
| "lastNonEmptyLine (l # ls) =
     (if trimSpace l \<noteq> [] then Some (trimSpace l) else lastNonEmptyLine ls)"

fun firstCapture :: "(gostring \<Rightarrow> gostring option) list \<Rightarrow> gostring \<Rightarrow> gostring option" where
  "firstCapture [] response = None"
| "firstCapture (re # res) response =
     (case re response of Some m \<Rightarrow> Some (trimSpace m) | None \<Rightarrow> firstCapture res response)"

text \<open>
  \<^verbatim>\<open>extractAnswer\<close>. The four compiled patterns are a parameter: \<open>patterns ! i\<close> gives the
  first capture group of the leftmost match of the \<open>i\<close>-th pattern, or \<open>None\<close> when
  \<^verbatim>\<open>FindStringSubmatch\<close> finds no match.
\<close>

definition extractAnswer :: "(gostring \<Rightarrow> gostring option) list \<Rightarrow> gostring \<Rightarrow> gostring" where
  "extractAnswer patterns response0 =
     (let response = trimSpace response0
      in if response = [] then []
         else (case firstCapture patterns response of
                 Some m \<Rightarrow> m
               | None \<Rightarrow>
                  (case lastNonEmptyLine (rev (splitLines response)) of
                     Some line \<Rightarrow> line
                   | None \<Rightarrow> response)))"

text \<open>
  The message that \<^verbatim>\<open>EvaluateSample\<close> records when the expected answer is not a
  string, as the code points of its eight characters.
\<close>

definition msgExpectedFormat :: gostring where
  "msgExpectedFormat = [26399, 26395, 31572, 26696, 26684, 24335, 38169, 35823]"

text \<open>
  \<^verbatim>\<open>EvaluateSample\<close> of the GAIA evaluator; \<open>out\<close> is what \<^verbatim>\<open>agent.Run\<close> returned for
  this sample. The Go function returns a \<^verbatim>\<open>nil\<close> error on every path.
\<close>

definition gaia_EvaluateSample ::
  "unicode \<Rightarrow> (gostring \<Rightarrow> gostring option) list \<Rightarrow> outcome \<Rightarrow> Sample \<Rightarrow> SampleResult" where
  "gaia_EvaluateSample U patterns out sample =
     (let result = zeroResult \<lparr> SampleID := ID sample, Level := Sample.Level sample,
                     Category := Sample.Category sample, Expected := Sample.Expected sample \<rparr>
      in case out of
           Inl err \<Rightarrow> result \<lparr> Error := err \<rparr>
         | Inr response \<Rightarrow>
            (let predictedAnswer = extractAnswer patterns response;
                 result = result \<lparr> AgentResponse := response,
                            Predicted := DStr predictedAnswer,
                            Details := mapSet (Details result) (str ''extracted_answer'')
                                         (DStr predictedAnswer) \<rparr>
             in case Sample.Expected sample of
                  JStr expectedAnswer \<Rightarrow>
                    (let (exactMatch, partialMatch) =
                           gaia_evaluateMatch U predictedAnswer expectedAnswer;
                         result = result \<lparr> Success := exactMatch, PartialSuccess := partialMatch \<rparr>;
                         result = (if exactMatch then result \<lparr> Score := 1 \<rparr>
                                   else if partialMatch then result \<lparr> Score := 1 / 2 \<rparr>
                                   else result)
                     in result \<lparr> Details :=
                          mapSet (mapSet (Details result) (str ''exact_match'') (DBool exactMatch))
                            (str ''partial_match'') (DBool partialMatch) \<rparr>)
                | _ \<Rightarrow> result \<lparr> Error := msgExpectedFormat \<rparr>))"

text \<open>
  The text-match policy in the words of the specification, on two normalized strings:
  equality gives (exact, partial); containment in either direction gives (not exact,
  partial); otherwise the expected string is split into white-space delimited tokens
  and, if there are any, the share of tokens that occur in the prediction is compared
  with 0.7; otherwise neither.
\<close>

definition textMatchPolicy :: "gostring \<Rightarrow> gostring \<Rightarrow> bool \<times> bool" where
  "textMatchPolicy predicted expected =
     (if predicted = expected then (True, True)
      else if contains predicted expected \<or> contains expected predicted then (False, True)
      else if Fields expected \<noteq> []
              \<and> real (length (filter (contains predicted) (Fields expected)))
                   / real (length (Fields expected)) \<ge> 7 / 10
        then (False, True)
      else (False, False))"

section \<open>The Go library\<close>

text \<open>
  A \<^verbatim>\<open>float64\<close> that \<^verbatim>\<open>fmt.Sscanf\<close> may produce: a finite number, an infinity or
  NaN. \<open>floatEq\<close> is Go's \<^verbatim>\<open>==\<close> on it.
\<close>

datatype float64 = Finite real | PosInf | NegInf | NaN

fun floatEq :: "float64 \<Rightarrow> float64 \<Rightarrow> bool" where
  "floatEq NaN _ = False"
| "floatEq _ NaN = False"
| "floatEq a b = (a = b)"

text \<open>
  The functions of the Go standard library that the evaluators call and whose code is
  not part of the repository, as a parameter:
  \<^item> \<open>unmarshal s\<close>: \<^verbatim>\<open>json.Unmarshal([]byte(s), &v)\<close> for \<^verbatim>\<open>v interface{}\<close>; \<open>Inl\<close> holds
    the text of the error;
  \<^item> \<open>unmarshalCalls s v\<close>, \<open>unmarshalCall s v\<close>: \<^verbatim>\<open>json.Unmarshal([]byte(s), &v)\<close> for a
    variable of type \<^verbatim>\<open>[]FunctionCall\<close>, of type \<^verbatim>\<open>FunctionCall\<close>, that holds \<open>v\<close> before the
    call: whether the error is \<^verbatim>\<open>nil\<close>, and what the variable holds afterwards (a
    decoding that fails may have filled part of it);
  \<^item> \<open>sprint v\<close>: \<^verbatim>\<open>fmt.Sprintf("%v", v)\<close>;
  \<^item> \<open>equalFold\<close>: \<^verbatim>\<open>strings.EqualFold\<close>;
  \<^item> \<open>sscanFloat s\<close>: \<^verbatim>\<open>fmt.Sscanf(s, "%f", &f)\<close>, \<open>None\<close> when it returns an error;
  \<^item> \<open>jsonArrayPattern s\<close>: all matches of
    \<^verbatim>\<open>\[[\s\S]*?\{[\s\S]*?"name"[\s\S]*?\}[\s\S]*?\]\<close> in \<open>s\<close>;
  \<^item> \<open>codeBlockPattern s\<close>: the first group of every match of the fenced code block
    pattern in \<open>s\<close>;
  \<^item> \<open>callPattern s\<close>: the two groups of \<^verbatim>\<open>^(\w+)\((.*)\)$\<close> on \<open>s\<close>, if it matches;
  \<^item> \<open>argPattern s\<close>: the two groups of every match of \<^verbatim>\<open>(\w+)\s*=\s*([^,]+)\<close>.
\<close>

record golib =
  unmarshal :: "gostring \<Rightarrow> gostring + json"
  unmarshalCalls :: "gostring \<Rightarrow> FunctionCall list \<Rightarrow> bool \<times> FunctionCall list"
  unmarshalCall :: "gostring \<Rightarrow> FunctionCall \<Rightarrow> bool \<times> FunctionCall"
  sprint :: "json \<Rightarrow> gostring"
  equalFold :: "gostring \<Rightarrow> gostring \<Rightarrow> bool"
  sscanFloat :: "gostring \<Rightarrow> float64 option"
  jsonArrayPattern :: "gostring \<Rightarrow> gostring list"
  codeBlockPattern :: "gostring \<Rightarrow> gostring list"
  callPattern :: "gostring \<Rightarrow> (gostring \<times> gostring) option"
  argPattern :: "gostring \<Rightarrow> (gostring \<times> gostring) list"

section \<open>Function-call matching (bfcl/evaluator.go)\<close>

text \<open>
  \<^verbatim>\<open>toFloat64\<close>. Of its cases, a value decoded from JSON can only be a \<^verbatim>\<open>float64\<close> or a
  \<^verbatim>\<open>string\<close>; every other value is an error.
\<close>

fun toFloat64 :: "golib \<Rightarrow> json \<Rightarrow> float64 option" where
  "toFloat64 L (JNum val) = Some (Finite val)"
| "toFloat64 L (JStr val) = sscanFloat L val"
| "toFloat64 L _ = None"

definition compareValues :: "golib \<Rightarrow> json \<Rightarrow> json \<Rightarrow> bool" where
  "compareValues L a b =
     (let aStr = sprint L a; bStr = sprint L b
      in if aStr = bStr then True
         else if equalFold L aStr bStr then True
         else (case (toFloat64 L a, toFloat64 L b) of
                 (Some aNum, Some bNum) \<Rightarrow> floatEq aNum bNum
               | _ \<Rightarrow> False))"

text \<open>
  The loop of \<^verbatim>\<open>compareFunctionCall\<close> over the expected arguments; the last argument
  is \<^verbatim>\<open>matchedParams\<close>.
\<close>

fun countParams ::
  "golib \<Rightarrow> (gostring \<times> json) list \<Rightarrow> (gostring \<times> json) list \<Rightarrow> nat \<Rightarrow> nat" where
  "countParams L predictedArgs [] matchedParams = matchedParams"
| "countParams L predictedArgs ((paramName, expectedVal) # rest) matchedParams =
     countParams L predictedArgs rest
       (case map_of predictedArgs paramName of
          Some predictedVal \<Rightarrow>
            if compareValues L predictedVal expectedVal then matchedParams + 1 else matchedParams
        | None \<Rightarrow> matchedParams)"

definition compareFunctionCall :: "golib \<Rightarrow> FunctionCall \<Rightarrow> FunctionCall \<Rightarrow> real" where
  "compareFunctionCall L predicted expected =
     (if Name predicted \<noteq> Name expected then 0
      else if length (Arguments expected) = 0 then 1
      else real (countParams L (Arguments predicted) (Arguments expected) 0)
             / real (length (Arguments expected)))"

text \<open>The messages of the ground-truth parser.\<close>

definition msgParseString :: gostring where
  "msgParseString = [35299, 26512, 23383, 31526, 20018, 32, 103, 114, 111, 117, 110, 100, 32,
     116, 114, 117, 116, 104, 32, 22833, 36133, 58, 32]"

definition msgUnsupported :: gostring where
  "msgUnsupported = [19981, 25903, 25345, 30340, 32, 103, 114, 111, 117, 110, 100, 32, 116,
     114, 117, 116, 104, 32, 26684, 24335, 58, 32]"

definition msgPython :: gostring where
  "msgPython = [26080, 27861, 35299, 26512, 32, 80, 121, 116, 104, 111, 110, 32, 20989, 25968,
     35843, 29992, 58, 32]"

text \<open>The verb \<^verbatim>\<open>%T\<close>: the name of the dynamic type.\<close>

fun typeName :: "json \<Rightarrow> gostring" where
  "typeName JNull = str ''<nil>''"
| "typeName (JBool _) = str ''bool''"
| "typeName (JNum _) = str ''float64''"
| "typeName (JStr _) = str ''string''"
| "typeName (JArr _) = str ''[]interface {}''"
| "typeName (JObj _) = str ''map[string]interface {}''"

text \<open>\<^verbatim>\<open>strings.Trim(s, `"'`)\<close>.\<close>

definition trimQuotes :: "gostring \<Rightarrow> gostring" where
  "trimQuotes s = trimRightFunc (dropWhile (\<lambda>c. c = 34 \<or> c = 39) s) (\<lambda>c. c = 34 \<or> c = 39)"

text \<open>The loop of \<^verbatim>\<open>parsePythonFunctionCall\<close> over the matches of the argument pattern.\<close>

fun pythonArgs ::
  "golib \<Rightarrow> (gostring \<times> gostring) list \<Rightarrow> (gostring \<times> json) list \<Rightarrow> (gostring \<times> json) list" where
  "pythonArgs L [] arguments = arguments"
| "pythonArgs L ((paramName, raw) # ms) arguments =
     (let paramVal = trimSpace raw;
          val = (case unmarshal L paramVal of Inr v \<Rightarrow> v | Inl _ \<Rightarrow> JStr (trimQuotes paramVal))
      in pythonArgs L ms (mapSet arguments paramName val))"

definition parsePythonFunctionCall :: "golib \<Rightarrow> gostring \<Rightarrow> gostring + FunctionCall" where
  "parsePythonFunctionCall L s =
     (case callPattern L (trimSpace s) of
        None \<Rightarrow> Inl (msgPython @ s)
      | Some (name, argsStr) \<Rightarrow>
          if argsStr = [] then Inr \<lparr> Name = name, Arguments = [] \<rparr>
          else Inr \<lparr> Name = name, Arguments = pythonArgs L (argPattern L argsStr) [] \<rparr>)"

text \<open>
  The loop over the parameters of one function in the map-of-function-names format: a
  non-empty list stands for its first element.
\<close>

fun paramArgs :: "(gostring \<times> json) list \<Rightarrow> (gostring \<times> json) list \<Rightarrow> (gostring \<times> json) list" where
  "paramArgs [] arguments = arguments"
| "paramArgs ((paramName, paramVal) # rest) arguments =
     paramArgs rest
       (mapSet arguments paramName
          (case paramVal of JArr (first # _) \<Rightarrow> first | _ \<Rightarrow> paramVal))"

text \<open>
  \<^verbatim>\<open>parseGroundTruthItem\<close>. It returns a \<^verbatim>\<open>nil\<close> error on every path; the result type
  keeps the error all the same, since the callers test it.
\<close>

fun parseGroundTruthItem :: "golib \<Rightarrow> json \<Rightarrow> gostring + FunctionCall list" where
  "parseGroundTruthItem L (JArr v) =
     Inr (concat (map (\<lambda>subItem. case parseGroundTruthItem L subItem of
                                   Inl err \<Rightarrow> [] | Inr subCalls \<Rightarrow> subCalls) v))"
| "parseGroundTruthItem L (JObj v) =
     (case map_of v (str ''name'') of
        Some (JStr name) \<Rightarrow>
          Inr [\<lparr> Name = name,
                 Arguments = (case map_of v (str ''arguments'') of
                                Some (JObj args) \<Rightarrow> args | _ \<Rightarrow> []) \<rparr>]
      | _ \<Rightarrow>
          Inr (map (\<lambda>(funcName, params).
                      \<lparr> Name = funcName,
                        Arguments = (case params of JObj paramsMap \<Rightarrow> paramArgs paramsMap []
                                     | _ \<Rightarrow> []) \<rparr>) v))"
| "parseGroundTruthItem L (JStr v) =
     (case parsePythonFunctionCall L v of Inr call \<Rightarrow> Inr [call] | Inl err \<Rightarrow> Inr [])"
| "parseGroundTruthItem L _ = Inr []"

text \<open>
  \<^verbatim>\<open>parseGroundTruth\<close>. A string is decoded and the function calls itself on the result;
  nothing in the function bounds that recursion, so the result is optional and \<open>None\<close>
  stands for a call that does not return.
\<close>

partial_function (option) parseGroundTruth ::
  "golib \<Rightarrow> json \<Rightarrow> (gostring + FunctionCall list) option" where
  "parseGroundTruth L gt =
     (case gt of
        JArr v \<Rightarrow>
          Some (Inr (concat (map (\<lambda>item. case parseGroundTruthItem L item of
                                           Inl err \<Rightarrow> [] | Inr parsedCalls \<Rightarrow> parsedCalls) v)))
      | JObj v \<Rightarrow>
          (case parseGroundTruthItem L (JObj v) of
             Inl err \<Rightarrow> Some (Inl err)
           | Inr parsedCalls \<Rightarrow> Some (Inr parsedCalls))
      | JStr v \<Rightarrow>
          (case unmarshal L v of
             Inl err \<Rightarrow> Some (Inl (msgParseString @ err))
           | Inr parsed \<Rightarrow> parseGroundTruth L parsed)
      | _ \<Rightarrow> Some (Inl (msgUnsupported @ typeName gt)))"

text \<open>The messages of \<^verbatim>\<open>extractFunctionCalls\<close>, \<^verbatim>\<open>EvaluateSample\<close> and \<^verbatim>\<open>evaluateMatch\<close>.\<close>

definition msgEmptyResponse :: gostring where
  "msgEmptyResponse = [31354, 21709, 24212]"

definition msgCannotExtract :: gostring where
  "msgCannotExtract = [26080, 27861, 20174, 21709, 24212, 20013, 25552, 21462, 20989, 25968,
     35843, 29992]"

definition msgExtractionFailed :: gostring where
  "msgExtractionFailed = [25552, 21462, 20989, 25968, 35843, 29992, 22833, 36133, 58, 32]"

definition msgNoGroundTruth :: gostring where
  "msgNoGroundTruth = [26410, 25214, 21040, 32, 103, 114, 111, 117, 110, 100, 32, 116, 114,
     117, 116, 104]"

definition msgNoPredictedCalls :: gostring where
  "msgNoPredictedCalls = [26410, 39044, 27979, 20219, 20309, 20989, 25968, 35843, 29992]"

definition msgNoExpectedCalls :: gostring where
  "msgNoExpectedCalls = [26080, 39044, 26399, 20989, 25968, 35843, 29992]"

text \<open>The zero value of \<^verbatim>\<open>FunctionCall\<close>.\<close>

definition zeroCall :: FunctionCall where
  "zeroCall = \<lparr> Name = [], Arguments = [] \<rparr>"

text \<open>
  The loop of \<^verbatim>\<open>extractFunctionCalls\<close> over the bracketed regions of the response; each
  round decodes into a variable \<^verbatim>\<open>extracted\<close> of its own.
\<close>

fun fromArrayMatches :: "golib \<Rightarrow> gostring list \<Rightarrow> FunctionCall list option" where
  "fromArrayMatches L [] = None"
| "fromArrayMatches L (match # ms) =
     (let (ok, extracted) = unmarshalCalls L match []
      in if ok \<and> length extracted > 0 then Some extracted else fromArrayMatches L ms)"

text \<open>
  Its loop over the fenced code blocks. Every round decodes into the variables
  \<^verbatim>\<open>calls\<close> and \<^verbatim>\<open>singleCall\<close> of the function, which keep what earlier decodings
  left in them.
\<close>

fun fromCodeBlocks ::
  "golib \<Rightarrow> gostring list \<Rightarrow> FunctionCall list \<Rightarrow> FunctionCall \<Rightarrow> FunctionCall list option" where
  "fromCodeBlocks L [] calls singleCall = None"
| "fromCodeBlocks L (match # ms) calls singleCall =
     (let content = trimSpace match;
          (ok, calls) = unmarshalCalls L content calls
      in if ok then Some calls
         else let (ok, singleCall) = unmarshalCall L content singleCall
              in if ok \<and> Name singleCall \<noteq> [] then Some [singleCall]
                 else fromCodeBlocks L ms calls singleCall)"

text \<open>
  \<^verbatim>\<open>extractFunctionCalls\<close>: the whole response as a list of calls, then the bracketed
  regions, then the whole response as one call, then the code blocks.
\<close>

definition extractFunctionCalls :: "golib \<Rightarrow> gostring \<Rightarrow> gostring + FunctionCall list" where
  "extractFunctionCalls L response0 =
     (let response = trimSpace response0
      in if response = [] then Inl msgEmptyResponse
         else let (ok, calls) = unmarshalCalls L response []
              in if ok then Inr calls
                 else case fromArrayMatches L (jsonArrayPattern L response) of
                   Some extracted \<Rightarrow> Inr extracted
                 | None \<Rightarrow>
                    (let (ok, singleCall) = unmarshalCall L response zeroCall
                     in if ok \<and> Name singleCall \<noteq> [] then Inr [singleCall]
                        else case fromCodeBlocks L (codeBlockPattern L response) calls singleCall of
                          Some calls \<Rightarrow> Inr calls
                        | None \<Rightarrow> Inl msgCannotExtract))"

text \<open>
  The inner loop of \<^verbatim>\<open>evaluateMatch\<close> over the predicted calls (the last argument is
  \<^verbatim>\<open>bestScore\<close>) and its outer loop over the expected calls (the last argument is the
  pair of \<^verbatim>\<open>matchedCount\<close> and \<^verbatim>\<open>totalScore\<close>).
\<close>

fun bestScoreLoop :: "golib \<Rightarrow> FunctionCall \<Rightarrow> FunctionCall list \<Rightarrow> real \<Rightarrow> real" where
  "bestScoreLoop L expected [] bestScore = bestScore"
| "bestScoreLoop L expected (pred # ps) bestScore =
     (let score = compareFunctionCall L pred expected
      in bestScoreLoop L expected ps (if score > bestScore then score else bestScore))"

fun scoreLoop ::
  "golib \<Rightarrow> FunctionCall list \<Rightarrow> FunctionCall list \<Rightarrow> nat \<times> real \<Rightarrow> nat \<times> real" where
  "scoreLoop L predicted [] (matchedCount, totalScore) = (matchedCount, totalScore)"
| "scoreLoop L predicted (expected # es) (matchedCount, totalScore) =
     (let bestScore = bestScoreLoop L expected predicted 0
      in scoreLoop L predicted es
           (if bestScore \<ge> 1 then matchedCount + 1 else matchedCount, totalScore + bestScore))"

text \<open>
  \<^verbatim>\<open>evaluateMatch\<close> of the BFCL evaluator: success, score and the details map.
\<close>

definition bfcl_evaluateMatch ::
  "golib \<Rightarrow> FunctionCall list \<Rightarrow> json \<Rightarrow> (bool \<times> real \<times> (gostring \<times> dynamic) list) option" where
  "bfcl_evaluateMatch L predicted groundTruth =
     map_option
       (\<lambda>parsed. case parsed of
          Inl err \<Rightarrow> (False, 0, [(str ''gt_parse_error'', DStr err)])
        | Inr expectedCalls \<Rightarrow>
           (let details = [(str ''expected_calls'', DCalls expectedCalls),
                           (str ''predicted_calls'', DCalls predicted)]
            in if length predicted = 0
                 then (False, 0, mapSet details (str ''reason'') (DStr msgNoPredictedCalls))
               else if length expectedCalls = 0
                 then (False, 0, mapSet details (str ''reason'') (DStr msgNoExpectedCalls))
               else let (matchedCount, totalScore) = scoreLoop L predicted expectedCalls (0, 0);
                        avgScore = totalScore / real (length expectedCalls);
                        success = (matchedCount = length expectedCalls)
                    in (success, avgScore,
                        mapSet (mapSet (mapSet details
                            (str ''matched_count'') (DInt (int matchedCount)))
                            (str ''expected_count'') (DInt (int (length expectedCalls))))
                            (str ''avg_score'') (DNum avgScore))))
       (parseGroundTruth L groundTruth)"

text \<open>The loop \<^verbatim>\<open>for k, v := range details { result.Details[k] = v }\<close>.\<close>

fun mergeDetails :: "(gostring \<times> dynamic) list \<Rightarrow> (gostring \<times> dynamic) list \<Rightarrow> (gostring \<times> dynamic) list" where
  "mergeDetails m [] = m"
| "mergeDetails m ((k, v) # rest) = mergeDetails (mapSet m k v) rest"

text \<open>
  \<^verbatim>\<open>EvaluateSample\<close> of the BFCL evaluator; \<open>groundTruth\<close> is the ground-truth map of the
  data set and \<open>out\<close> what \<^verbatim>\<open>agent.Run\<close> returned. The Go function returns a \<^verbatim>\<open>nil\<close>
  error on every path.
\<close>

definition bfcl_EvaluateSample ::
  "golib \<Rightarrow> (gostring \<times> json) list \<Rightarrow> outcome \<Rightarrow> Sample \<Rightarrow> SampleResult option" where
  "bfcl_EvaluateSample L groundTruth out sample =
     (let result = zeroResult \<lparr> SampleID := ID sample, Category := Sample.Category sample,
                     Expected := Sample.Expected sample \<rparr>
      in case out of
           Inl err \<Rightarrow> Some (result \<lparr> Error := err \<rparr>)
         | Inr response \<Rightarrow>
            (let result = result \<lparr> AgentResponse := response \<rparr>
             in case extractFunctionCalls L response of
                  Inl err \<Rightarrow>
                    Some (result \<lparr> Error := msgExtractionFailed @ err,
                            Details := mapSet (Details result) (str ''extraction_error'') (DStr err) \<rparr>)
                | Inr predictedCalls \<Rightarrow>
                   (let result = result \<lparr> Predicted := DCalls predictedCalls \<rparr>
                    in case map_of groundTruth (ID sample) of
                         None \<Rightarrow> Some (result \<lparr> Error := msgNoGroundTruth \<rparr>)
                       | Some gt \<Rightarrow>
                           map_option
                             (\<lambda>(success, score, details).
                                result \<lparr> Success := success, Score := score,
                                  Details := mergeDetails (Details result) details \<rparr>)
                             (bfcl_evaluateMatch L predictedCalls gt))))"

section \<open>The evaluation runs\<close>


text \<open>
  The BFCL data set once loaded, and its \<^verbatim>\<open>Get\<close>, which attaches the ground truth;
  \<open>None\<close> is the index error, whose text no caller reads.
\<close>

record Dataset =
  samples :: "Sample list"
  groundTruth :: "(gostring \<times> json) list"










section \<open>The judge (datagen/llm_judge.go)\<close>

text \<open>
  \<^verbatim>\<open>json.Unmarshal\<close> into a \<^verbatim>\<open>map[string]interface{}\<close>: an object gives its map,
  \<^verbatim>\<open>null\<close> leaves the map \<^verbatim>\<open>nil\<close> without an error, and everything else is an error
  (\<open>None\<close>).
\<close>

definition unmarshalMap :: "golib \<Rightarrow> gostring \<Rightarrow> (gostring \<times> json) list option" where
  "unmarshalMap L s =
     (case unmarshal L s of
        Inr (JObj m) \<Rightarrow> Some m
      | Inr JNull \<Rightarrow> Some []
      | _ \<Rightarrow> None)"

text \<open>
  The text that \<^verbatim>\<open>parseJudgeResponse\<close> decodes: the content of the first fenced code
  block if there is one, else the whole response.
\<close>

definition jsonContent :: "golib \<Rightarrow> gostring \<Rightarrow> gostring" where
  "jsonContent L response =
     (case codeBlockPattern L response of content # _ \<Rightarrow> content | [] \<Rightarrow> response)"

text \<open>The type assertion \<^verbatim>\<open>parsed[key].(float64)\<close>, with the value to keep otherwise.\<close>

definition floatField :: "(gostring \<times> json) list \<Rightarrow> gostring \<Rightarrow> real \<Rightarrow> real" where
  "floatField parsed key dflt = (case map_of parsed key of Some (JNum v) \<Rightarrow> v | _ \<Rightarrow> dflt)"

definition stringField :: "(gostring \<times> json) list \<Rightarrow> gostring \<Rightarrow> gostring \<Rightarrow> gostring" where
  "stringField parsed key dflt = (case map_of parsed key of Some (JStr v) \<Rightarrow> v | _ \<Rightarrow> dflt)"

definition parseJudgeResponse :: "golib \<Rightarrow> gostring \<Rightarrow> JudgeScore" where
  "parseJudgeResponse L response =
     (let score = \<lparr> Correctness = 3, Clarity = 3, DifficultyMatch = 3, Completeness = 3,
                    TotalScore = 0, Comments = [] \<rparr>;
          score = (case unmarshalMap L (jsonContent L response) of
                     Some parsed \<Rightarrow>
                       score \<lparr> Correctness := floatField parsed (str ''correctness'') (Correctness score),
                               Clarity := floatField parsed (str ''clarity'') (Clarity score),
                               DifficultyMatch :=
                                 floatField parsed (str ''difficulty_match'') (DifficultyMatch score),
                               Completeness :=
                                 floatField parsed (str ''completeness'') (Completeness score),
                               Comments := stringField parsed (str ''comments'') (Comments score) \<rparr>
                   | None \<Rightarrow> score)
      in score \<lparr> TotalScore :=
           (Correctness score + Clarity score + DifficultyMatch score + Completeness score) / 4 \<rparr>)"

text \<open>
  \<^verbatim>\<open>EvaluateSample\<close> of the judge; \<open>out\<close> is what \<^verbatim>\<open>llmProvider.Generate\<close> returned.
\<close>

definition judge_EvaluateSample :: "golib \<Rightarrow> outcome \<Rightarrow> Sample \<Rightarrow> SampleResult" where
  "judge_EvaluateSample L out sample =
     (let result = zeroResult \<lparr> SampleID := ID sample, Category := Sample.Category sample \<rparr>
      in case out of
           Inl err \<Rightarrow> result \<lparr> Error := err \<rparr>
         | Inr content \<Rightarrow>
            (let score = parseJudgeResponse L content;
                 totalScore = (Correctness score + Clarity score + DifficultyMatch score
                                 + Completeness score) / 4
             in result \<lparr> AgentResponse := content,
                  Predicted := DJudge score,
                  Score := totalScore,
                  Success := (totalScore \<ge> 3),
                  Details :=
                    mergeDetails (Details result)
                      [(str ''judge_score'', DJudge score),
                       (str ''total_score'', DNum totalScore),
                       (str ''correctness'', DNum (Correctness score)),
                       (str ''clarity'', DNum (Clarity score)),
                       (str ''difficulty_match'', DNum (DifficultyMatch score)),
                       (str ''completeness'', DNum (Completeness score)),
                       (str ''comments'', DStr (Comments score))] \<rparr>))"

section \<open>Difficulty progression (gaia/export.go)\<close>

record LevelMetrics =
  Level :: int
  Total :: int
  ExactMatches :: int
  PartialMatches :: int
  ExactMatchRate :: real
  PartialMatchRate :: real

text \<open>Reading a key of a \<^verbatim>\<open>map[int]float64\<close>: the zero value when the key is missing.\<close>

definition rateAt :: "(int \<times> real) list \<Rightarrow> int \<Rightarrow> real" where
  "rateAt rates level = (case map_of rates level of Some r \<Rightarrow> r | None \<Rightarrow> 0)"

text \<open>The loop that fills \<^verbatim>\<open>rates\<close>.\<close>

fun levelRates :: "(int \<times> LevelMetrics) list \<Rightarrow> (int \<times> real) list \<Rightarrow> (int \<times> real) list" where
  "levelRates [] rates = rates"
| "levelRates ((level, lm) # rest) rates = levelRates rest (mapSet rates level (ExactMatchRate lm))"

text \<open>The three entries of the analysis that \<^verbatim>\<open>AnalyzeDifficultyProgression\<close> returns.\<close>

record analysis =
  level_rates :: "(int \<times> real) list"
  difficulty_drops :: "(gostring \<times> real) list"
  performance_pattern :: gostring

definition AnalyzeDifficultyProgression :: "(int \<times> LevelMetrics) list \<Rightarrow> analysis" where
  "AnalyzeDifficultyProgression levelMetrics =
     (let rates = levelRates levelMetrics [];
          drops = [];
          drops = (case map_of rates 1 of
                     Some rate1 \<Rightarrow>
                       (let drops = (case map_of rates 2 of
                                       Some rate2 \<Rightarrow> mapSet drops (str ''level1_to_level2'') (rate1 - rate2)
                                     | None \<Rightarrow> drops)
                        in case map_of rates 3 of
                             Some rate3 \<Rightarrow> mapSet drops (str ''level1_to_level3'') (rate1 - rate3)
                           | None \<Rightarrow> drops)
                   | None \<Rightarrow> drops);
          drops = (case map_of rates 2 of
                     Some rate2 \<Rightarrow>
                       (case map_of rates 3 of
                          Some rate3 \<Rightarrow> mapSet drops (str ''level2_to_level3'') (rate2 - rate3)
                        | None \<Rightarrow> drops)
                   | None \<Rightarrow> drops);
          pattern =
            (if length rates \<ge> 2 then
               if rateAt rates 1 > rateAt rates 2
                  \<and> (length rates < 3 \<or> rateAt rates 2 > rateAt rates 3)
                 then str ''expected_degradation''
               else if rateAt rates 1 < rateAt rates 2 then str ''anomaly_level2_better''
               else str ''inconsistent''
             else [])
      in \<lparr> level_rates = rates, difficulty_drops = drops, performance_pattern = pattern \<rparr>)"

section \<open>The rules in the words of the specification\<close>

text \<open>
  Best-effort numeric coercion: a number is its own value, a string is the number that
  scanning it as \<^verbatim>\<open>%f\<close> reads, and no other value is numeric.
\<close>

definition numericValue :: "golib \<Rightarrow> json \<Rightarrow> float64 option" where
  "numericValue L v =
     (case v of JNum x \<Rightarrow> Some (Finite x) | JStr s \<Rightarrow> sscanFloat L s | _ \<Rightarrow> None)"

text \<open>
  Two values compare equal when their renderings are equal, or equal up to case, or
  when both coerce to numbers and the numbers are equal.
\<close>

definition valuesEqual :: "golib \<Rightarrow> json \<Rightarrow> json \<Rightarrow> bool" where
  "valuesEqual L a b \<longleftrightarrow>
     sprint L a = sprint L b
     \<or> equalFold L (sprint L a) (sprint L b)
     \<or> (case numericValue L a of
           Some x \<Rightarrow> (case numericValue L b of Some y \<Rightarrow> floatEq x y | None \<Rightarrow> False)
         | None \<Rightarrow> False)"

text \<open>An expected parameter is matched when the prediction has it with an equal value.\<close>

definition paramMatches :: "golib \<Rightarrow> FunctionCall \<Rightarrow> gostring \<times> json \<Rightarrow> bool" where
  "paramMatches L predicted param \<longleftrightarrow>
     (case map_of (Arguments predicted) (fst param) of
        Some predictedVal \<Rightarrow> valuesEqual L predictedVal (snd param)
      | None \<Rightarrow> False)"

text \<open>
  The score of a pair: 0 when the names differ, 1 when they agree and nothing is
  expected of the parameters, else the share of the expected parameters that are matched.
\<close>

definition pairScore :: "golib \<Rightarrow> FunctionCall \<Rightarrow> FunctionCall \<Rightarrow> real" where
  "pairScore L predicted expected =
     (if Name predicted \<noteq> Name expected then 0
      else if Arguments expected = [] then 1
      else real (length (filter (paramMatches L predicted) (Arguments expected)))
             / real (length (Arguments expected)))"

text \<open>
  The best-match score of an expected call: the greatest pair score over the predicted
  calls (0 when there is none; no pair score is negative).
\<close>

definition bestMatch :: "golib \<Rightarrow> FunctionCall list \<Rightarrow> FunctionCall \<Rightarrow> real" where
  "bestMatch L predicted expected = Max (insert 0 ((\<lambda>p. pairScore L p expected) ` set predicted))"

text \<open>
  The canonical expected value of a parameter in the map-of-function-names format: the
  first element of a non-empty list of acceptable values, else the value itself.
\<close>

definition canonical :: "json \<Rightarrow> json" where
  "canonical paramVal = (case paramVal of JArr (first # _) \<Rightarrow> first | _ \<Rightarrow> paramVal)"

text \<open>
  The text in which the judge's scores are looked for, in the words of the specification:
  the first fenced code block of the reply if it has one, otherwise the raw reply.
\<close>

definition judgeSource :: "golib \<Rightarrow> gostring \<Rightarrow> gostring" where
  "judgeSource L response =
     (if codeBlockPattern L response = [] then response else hd (codeBlockPattern L response))"

text \<open>
  No JSON object can be parsed from a text: decoding it fails, or gives a value that is
  not an object (\<^verbatim>\<open>null\<close>, a number, a string, a boolean, an array).
\<close>

definition noJsonObject :: "golib \<Rightarrow> gostring \<Rightarrow> bool" where
  "noJsonObject L s \<longleftrightarrow> (case unmarshal L s of Inr (JObj m) \<Rightarrow> False | _ \<Rightarrow> True)"


section \<open>A library table for the examples\<close>

text \<open>
  \<open>testLib\<close> answers as the Go library does on the few inputs that the examples of this
  theory use, and reports failure everywhere else: \<^verbatim>\<open>%v\<close> of a string, a boolean,
  \<^verbatim>\<open>nil\<close> and the numbers 0 to 3; \<^verbatim>\<open>strings.EqualFold\<close> on ASCII text; \<^verbatim>\<open>%f\<close>
  scanning of \<^verbatim>\<open>1.0\<close>; \<^verbatim>\<open>json.Unmarshal\<close> and the code-block pattern on the replies
  named below. \<open>judgeReplyFenced\<close> is a JSON object whose comment holds a fenced block,
  \<open>fencedCallReply\<close> a JSON object whose \<^verbatim>\<open>arguments\<close> are a string (so that decoding it
  into a \<^verbatim>\<open>FunctionCall\<close> sets the name and then fails) and hold a fenced block.
\<close>

definition judgeReplyTen :: gostring where
  "judgeReplyTen =
     str ''{\"correctness\": 10, \"clarity\": 10, \"difficulty_match\": 10, \"completeness\": 10}''"

definition judgeReplyFour :: gostring where
  "judgeReplyFour = str ''{\"correctness\": 4}''"

definition judgeReplyFenced :: gostring where
  "judgeReplyFenced = str ''{\"correctness\": 5, \"comments\": \"```x```\"}''"

definition callsReply :: gostring where
  "callsReply = str ''[{\"name\": \"f\"}]''"

definition fencedCallReply :: gostring where
  "fencedCallReply = str ''{\"name\": \"f\", \"arguments\": \"```{}```\"}''"

definition testLib :: golib where
  "testLib =
     \<lparr> unmarshal = (\<lambda>s.
         if s = judgeReplyTen
         then Inr (JObj [(str ''correctness'', JNum 10), (str ''clarity'', JNum 10),
                         (str ''difficulty_match'', JNum 10), (str ''completeness'', JNum 10)])
         else if s = judgeReplyFour then Inr (JObj [(str ''correctness'', JNum 4)])
         else if s = judgeReplyFenced
         then Inr (JObj [(str ''correctness'', JNum 5), (str ''comments'', JStr (str ''```x```''))])
         else if s = str ''null'' then Inr JNull
         else Inl (str ''invalid character'')),
       unmarshalCalls = (\<lambda>s v.
         if s = callsReply then (True, [\<lparr> Name = str ''f'', Arguments = [] \<rparr>])
         else if s = str ''[]'' then (True, [])
         else (False, v)),
       unmarshalCall = (\<lambda>s v.
         if s = fencedCallReply then (False, v \<lparr> Name := str ''f'' \<rparr>)
         else if s = str ''{}'' then (True, v)
         else (False, v)),
       sprint = (\<lambda>v. case v of
           JStr s \<Rightarrow> s
         | JBool b \<Rightarrow> (if b then str ''true'' else str ''false'')
         | JNum x \<Rightarrow> (if x = 0 then str ''0'' else if x = 1 then str ''1''
                       else if x = 2 then str ''2'' else if x = 3 then str ''3'' else str ''?'')
         | _ \<Rightarrow> str ''<nil>''),
       equalFold = (\<lambda>a b. map (toLower asciiTables) a = map (toLower asciiTables) b),
       sscanFloat = (\<lambda>s. if s = str ''1.0'' then Some (Finite 1) else None),
       jsonArrayPattern = (\<lambda>s. []),
       codeBlockPattern = (\<lambda>s.
         if s = judgeReplyFenced then [str ''x'']
         else if s = fencedCallReply then [str ''{}'']
         else []),
       callPattern = (\<lambda>s. None),
       argPattern = (\<lambda>s. []) \<rparr>"

text \<open>A sample of the examples.\<close>

definition exampleSample :: Sample where
  "exampleSample = \<lparr> ID = str ''s1'', Input = str ''q'', Expected = JStr (str ''apple''),
     Category = [], Level = 1 \<rparr>"

text \<open>The metrics of a level of ten samples with a given exact-match rate.\<close>

definition exampleLevel :: "int \<Rightarrow> real \<Rightarrow> LevelMetrics" where
  "exampleLevel l r = \<lparr> Level = l, Total = 10, ExactMatches = 0, PartialMatches = 0, ExactMatchRate = r,
     PartialMatchRate = 0 \<rparr>"


text \<open>A ground-truth map for the sample of the examples.\<close>

definition exampleGroundTruth :: "(gostring \<times> json) list" where
  "exampleGroundTruth = [(str ''s1'', JArr [JObj [(str ''name'', JStr (str ''f''))]])]"

text \<open>
  A result that records the message \<open>msg\<close> as its error, with no success, no partial
  success and the score 0.
\<close>

definition failed :: "SampleResult \<Rightarrow> gostring \<Rightarrow> bool" where
  "failed r msg \<longleftrightarrow> Error r = msg \<and> \<not> Success r \<and> \<not> PartialSuccess r \<and> Score r = 0"


section \<open>Properties of the normalizer\<close>

lemmas norm_eval =
  normalizeAnswer_def str_def asciiTables_def trimSpace_def trimRightFunc_def isSpace_def
  articles_def hasPrefix_def trimPrefix_def removeRune_def removeNumberCommas.simps
  matchAt_def isDigit_def Fields.simps

lemma removeNumberCommas_no_match: "\<not> matchString (removeNumberCommas s)"
proof (induction s rule: removeNumberCommas.induct)
  case (1 s)
  then show ?case
    by (cases "matchString s") (simp_all add: removeNumberCommas.simps [of s])
qed

lemma removeNumberCommas_fixed: "\<not> matchString s \<Longrightarrow> removeNumberCommas s = s"
  by (simp add: removeNumberCommas.simps [of s])






subsection \<open>The thousands pattern, position by position\<close>









subsection \<open>Splitting at white space and joining again\<close>

lemma Fields_Nil: "Fields [] = []"
  by (subst Fields.simps) simp

lemma Fields_space: "isSpace c \<Longrightarrow> Fields (c # s) = Fields s"
  by (simp add: Fields.simps [of "c # s"] Fields.simps [of s])

lemma Fields_word:
  "w \<noteq> [] \<Longrightarrow> \<forall>c\<in>set w. \<not> isSpace c \<Longrightarrow> s = [] \<or> isSpace (hd s) \<Longrightarrow>
     Fields (w @ s) = w # Fields s"
proof -
  assume w: "w \<noteq> []" and ns: "\<forall>c\<in>set w. \<not> isSpace c" and s: "s = [] \<or> isSpace (hd s)"
  from w ns have d: "dropWhile isSpace (w @ s) = w @ s"
    by (cases w) auto
  from ns s have t: "takeWhile (\<lambda>c. \<not> isSpace c) (w @ s) = w"
    by (cases s) (auto simp: takeWhile_append2)
  from ns s have r: "dropWhile (\<lambda>c. \<not> isSpace c) (w @ s) = s"
    by (cases s) (auto simp: dropWhile_append2)
  from w d t r show ?thesis
    by (simp add: Fields.simps [of "w @ s"])
qed

lemma Fields_words:
  "w \<in> set (Fields s) \<Longrightarrow> w \<noteq> [] \<and> (\<forall>c\<in>set w. \<not> isSpace c)"
proof (induction s arbitrary: w rule: Fields.induct)
  case (1 s)
  define s' where "s' = dropWhile isSpace s"
  have eq: "Fields s = (if s' = [] then []
      else takeWhile (\<lambda>c. \<not> isSpace c) s' # Fields (dropWhile (\<lambda>c. \<not> isSpace c) s'))"
    by (subst Fields.simps) (simp only: Let_def s'_def)
  show ?case
  proof (cases "s' = []")
    case True
    with 1(2) eq show ?thesis by simp
  next
    case False
    then have hd: "\<not> isSpace (hd s')"
      unfolding s'_def by (rule hd_dropWhile)
    from eq False 1(2) have "w = takeWhile (\<lambda>c. \<not> isSpace c) s'
        \<or> w \<in> set (Fields (dropWhile (\<lambda>c. \<not> isSpace c) s'))"
      by simp
    then show ?thesis
    proof
      assume w: "w = takeWhile (\<lambda>c. \<not> isSpace c) s'"
      from False hd have "w \<noteq> []" unfolding w by (cases s') auto
      moreover have "\<forall>c\<in>set w. \<not> isSpace c"
        unfolding w by (auto dest: set_takeWhileD)
      ultimately show ?thesis by simp
    next
      assume "w \<in> set (Fields (dropWhile (\<lambda>c. \<not> isSpace c) s'))"
      then show ?thesis by (rule 1(1) [OF s'_def False])
    qed
  qed
qed

lemma dropWhile_hd: "xs = [] \<or> \<not> P (hd xs) \<Longrightarrow> dropWhile P xs = xs"
  by (cases xs) auto

lemma isSpace_32: "isSpace 32" by (simp add: isSpace_def)

lemma joinSpace_Nil_iff: "\<forall>w\<in>set ws. wordlike w \<Longrightarrow> joinSpace ws = [] \<longleftrightarrow> ws = []"
  by (induction ws rule: joinSpace.induct) (auto simp: wordlike_def)

lemma Fields_joinSpace: "\<forall>w\<in>set ws. wordlike w \<Longrightarrow> Fields (joinSpace ws) = ws"
proof (induction ws rule: joinSpace.induct)
  case 1
  show ?case by (simp add: Fields_Nil)
next
  case (2 w)
  then have "Fields (w @ []) = w # Fields []"
    by (intro Fields_word) (auto simp: wordlike_def)
  then show ?case by (simp add: Fields_Nil)
next
  case (3 w v ws)
  then have "Fields (w @ 32 # joinSpace (v # ws)) = w # Fields (32 # joinSpace (v # ws))"
    by (intro Fields_word) (auto simp: wordlike_def isSpace_32)
  with 3 show ?case by (simp add: Fields_space isSpace_32)
qed

lemma joinSpace_Fields_idem: "joinSpace (Fields (joinSpace (Fields s))) = joinSpace (Fields s)"
  using Fields_joinSpace [of "Fields s"] Fields_words [of _ s] by (simp add: wordlike_def)

lemma hd_joinSpace: "ws \<noteq> [] \<Longrightarrow> \<forall>w\<in>set ws. wordlike w \<Longrightarrow> hd (joinSpace ws) = hd (hd ws)"
  by (induction ws rule: joinSpace.induct) (auto simp: wordlike_def)

lemma last_joinSpace: "ws \<noteq> [] \<Longrightarrow> \<forall>w\<in>set ws. wordlike w \<Longrightarrow> last (joinSpace ws) = last (last ws)"
  by (induction ws rule: joinSpace.induct) (auto simp: wordlike_def joinSpace_Nil_iff)

lemma trimSpace_fixed:
  "s = [] \<or> (\<not> isSpace (hd s) \<and> \<not> isSpace (last s)) \<Longrightarrow> trimSpace s = s"
proof (cases s)
  case Nil
  then show ?thesis by (simp add: trimSpace_def trimRightFunc_def)
next
  case (Cons a as)
  assume "s = [] \<or> (\<not> isSpace (hd s) \<and> \<not> isSpace (last s))"
  with Cons have h: "\<not> isSpace (hd s)" and l: "\<not> isSpace (last s)" by auto
  from Cons h have "dropWhile isSpace s = s" by simp
  moreover have "hd (rev s) = last s"
    using Cons by (simp only: hd_rev)
  with l have "dropWhile isSpace (rev s) = rev s"
    by (intro dropWhile_hd) simp
  ultimately show ?thesis by (simp add: trimSpace_def trimRightFunc_def)
qed

lemma trimSpace_joinSpace:
  assumes "\<forall>w\<in>set ws. wordlike w"
  shows "trimSpace (joinSpace ws) = joinSpace ws"
proof (cases ws)
  case Nil
  then show ?thesis by (simp add: trimSpace_def trimRightFunc_def)
next
  case (Cons w ws')
  with assms have "wordlike (hd ws)" "wordlike (last ws)" by auto
  then have "\<not> isSpace (hd (hd ws))" "\<not> isSpace (last (last ws))"
    by (auto simp: wordlike_def)
  with Cons assms show ?thesis
    by (intro trimSpace_fixed) (simp add: hd_joinSpace last_joinSpace)
qed

subsection \<open>Occurrences of the thousands pattern\<close>

lemma matchAt_append: "matchAt q \<Longrightarrow> matchAt (q @ r)"
  by (auto simp: matchAt_def split: list.splits)

lemma matchAt_take5: "matchAt q \<Longrightarrow> matchAt (take 5 q) \<and> length (take 5 q) = 5 \<and> 32 \<notin> set (take 5 q)"
  by (auto simp: matchAt_def isDigit_def split: list.splits)

lemma matchString_suffixI: "matchAt q \<Longrightarrow> matchString (p @ q)"
proof (induction p)
  case Nil
  then show ?case by (cases q) (auto simp: matchAt_def)
next
  case (Cons a p)
  then show ?case by simp
qed

lemma matchString_sublist:
  "matchString s \<longleftrightarrow> (\<exists>m. sublist m s \<and> matchAt m \<and> length m = 5)"
proof
  assume "matchString s"
  then have "\<exists>p q. s = p @ q \<and> matchAt q"
  proof (induction s)
    case Nil
    then show ?case by simp
  next
    case (Cons x xs)
    show ?case
    proof (cases "matchAt (x # xs)")
      case True
      then have "x # xs = [] @ (x # xs) \<and> matchAt (x # xs)" by simp
      then show ?thesis by blast
    next
      case False
      with Cons obtain p q where "xs = p @ q" "matchAt q" by auto
      then have "x # xs = (x # p) @ q \<and> matchAt q" by simp
      then show ?thesis by blast
    qed
  qed
  then obtain p q where s: "s = p @ q" and q: "matchAt q" by blast
  have "s = p @ take 5 q @ drop 5 q" by (simp add: s)
  then have "sublist (take 5 q) s" unfolding sublist_def by blast
  with matchAt_take5 [OF q] show "\<exists>m. sublist m s \<and> matchAt m \<and> length m = 5" by blast
next
  assume "\<exists>m. sublist m s \<and> matchAt m \<and> length m = 5"
  then obtain m p r where "s = p @ m @ r" "matchAt m" unfolding sublist_def by blast
  then show "matchString s"
    using matchString_suffixI [of "m @ r" p] matchAt_append [of m r] by simp
qed

lemma matchAt_no_space: "matchAt m \<Longrightarrow> length m = 5 \<Longrightarrow> 32 \<notin> set m"
  using matchAt_take5 [of m] by simp

lemma sublist_joinSpace:
  "sublist m (joinSpace ws) \<Longrightarrow> m \<noteq> [] \<Longrightarrow> 32 \<notin> set m \<Longrightarrow> \<exists>w\<in>set ws. sublist m w"
proof (induction ws rule: joinSpace.induct)
  case 1
  then show ?case by simp
next
  case (2 w)
  then show ?case by simp
next
  case (3 w v ws)
  from 3(2) have "sublist m (w @ 32 # joinSpace (v # ws))" by simp
  then consider "sublist m w" | "sublist m (32 # joinSpace (v # ws))"
    | m1 m2 where "m = m1 @ m2" "suffix m1 w" "prefix m2 (32 # joinSpace (v # ws))"
    unfolding sublist_append by blast
  then show ?case
  proof cases
    case 1
    then show ?thesis by simp
  next
    case 2
    then have "prefix m (32 # joinSpace (v # ws)) \<or> sublist m (joinSpace (v # ws))"
      by (simp add: sublist_Cons_right)
    moreover have "\<not> prefix m (32 # joinSpace (v # ws))"
      using 3(3,4) by (cases m) (auto simp: prefix_Cons)
    ultimately have "sublist m (joinSpace (v # ws))" by simp
    with 3 show ?thesis by auto
  next
    case 3
    have "m2 = []"
    proof (rule ccontr)
      assume "m2 \<noteq> []"
      with 3(3) have "hd m2 = 32" by (cases m2) (auto simp: prefix_Cons)
      with \<open>m2 \<noteq> []\<close> have "32 \<in> set m2" by (cases m2) auto
      with 3(1) \<open>32 \<notin> set m\<close> show False by simp
    qed
    with 3 have "suffix m w" by simp
    then show ?thesis by auto
  qed
qed

lemma Fields_sublist: "w \<in> set (Fields s) \<Longrightarrow> sublist w s"
proof (induction s arbitrary: w rule: Fields.induct)
  case (1 s)
  define s' where "s' = dropWhile isSpace s"
  have eq: "Fields s = (if s' = [] then []
      else takeWhile (\<lambda>c. \<not> isSpace c) s' # Fields (dropWhile (\<lambda>c. \<not> isSpace c) s'))"
    by (subst Fields.simps) (simp only: Let_def s'_def)
  have s's: "sublist s' s" unfolding s'_def by simp
  show ?case
  proof (cases "s' = []")
    case True
    with 1(2) eq show ?thesis by simp
  next
    case False
    from eq False 1(2) have "w = takeWhile (\<lambda>c. \<not> isSpace c) s'
        \<or> w \<in> set (Fields (dropWhile (\<lambda>c. \<not> isSpace c) s'))"
      by simp
    then have "sublist w s'"
    proof
      assume "w = takeWhile (\<lambda>c. \<not> isSpace c) s'"
      then show ?thesis by simp
    next
      assume "w \<in> set (Fields (dropWhile (\<lambda>c. \<not> isSpace c) s'))"
      then have "sublist w (dropWhile (\<lambda>c. \<not> isSpace c) s')"
        by (rule 1(1) [OF s'_def False])
      moreover have "sublist (dropWhile (\<lambda>c. \<not> isSpace c) s') s'" by simp
      ultimately show ?thesis by (rule sublist_order.order.trans)
    qed
    then show ?thesis using s's by (rule sublist_order.order.trans)
  qed
qed

lemma joinSpace_Fields_no_match:
  assumes "\<not> matchString t"
  shows "\<not> matchString (joinSpace (Fields t))"
proof
  assume "matchString (joinSpace (Fields t))"
  then obtain m where m: "sublist m (joinSpace (Fields t))" "matchAt m" "length m = 5"
    unfolding matchString_sublist by blast
  then have "m \<noteq> []" "32 \<notin> set m" using matchAt_no_space by auto
  with m(1) obtain w where "w \<in> set (Fields t)" "sublist m w"
    using sublist_joinSpace by blast
  then have "sublist m t"
    using Fields_sublist sublist_order.order.trans by blast
  with m assms show False unfolding matchString_sublist by blast
qed

subsection \<open>What the steps of the normalizer keep\<close>

lemma set_replaceAllString: "set (replaceAllString s) \<subseteq> set s"
proof (induction s rule: replaceAllString.induct)
  case 1
  show ?case by simp
next
  case (2 x xs)
  show ?case
  proof (cases "matchAt (x # xs)")
    case True
    have "set (take 3 (tl xs)) \<subseteq> set (tl xs)" by (rule set_take_subset)
    moreover have "set (tl xs) \<subseteq> set xs" by (cases xs) auto
    ultimately have "set (take 3 (tl xs)) \<subseteq> set xs" by blast
    moreover have "set (drop 4 xs) \<subseteq> set xs" by (rule set_drop_subset)
    moreover from True 2 have "set (replaceAllString (drop 4 xs)) \<subseteq> set (drop 4 xs)" by simp
    ultimately show ?thesis using True by auto
  next
    case False
    with 2 show ?thesis by auto
  qed
qed

lemma set_removeNumberCommas: "set (removeNumberCommas s) \<subseteq> set s"
proof (induction s rule: removeNumberCommas.induct)
  case (1 s)
  show ?case
  proof (cases "matchString s")
    case True
    with 1 have "set (removeNumberCommas (replaceAllString s)) \<subseteq> set (replaceAllString s)" by simp
    with True set_replaceAllString [of s] show ?thesis
      by (simp add: removeNumberCommas.simps [of s])
  next
    case False
    then show ?thesis by (simp add: removeNumberCommas_fixed)
  qed
qed

lemma set_joinSpace: "set (joinSpace ws) \<subseteq> \<Union>(set ` set ws) \<union> {32}"
  by (induction ws rule: joinSpace.induct) auto

lemma set_joinSpace_Fields: "set (joinSpace (Fields s)) \<subseteq> set s \<union> {32}"
proof -
  have "\<Union>(set ` set (Fields s)) \<subseteq> set s"
    using Fields_sublist set_mono_sublist by blast
  with set_joinSpace [of "Fields s"] show ?thesis by blast
qed

lemma set_trimRightFunc: "set (trimRightFunc s f) \<subseteq> set s"
  unfolding trimRightFunc_def using set_dropWhileD [of _ f "rev s"] by auto

lemma trimRightFunc_fixed: "s = [] \<or> \<not> f (last s) \<Longrightarrow> trimRightFunc s f = s"
proof (cases s)
  case Nil
  then show ?thesis by (simp add: trimRightFunc_def)
next
  case (Cons a as)
  assume "s = [] \<or> \<not> f (last s)"
  with Cons have l: "\<not> f (last s)" by simp
  have "hd (rev s) = last s" using Cons by (simp only: hd_rev)
  with l have "dropWhile f (rev s) = rev s"
    by (intro dropWhile_hd) simp
  then show ?thesis by (simp add: trimRightFunc_def)
qed

lemma set_stripArticle: "set (stripArticle as s) \<subseteq> set s"
  by (induction as) (auto simp: trimPrefix_def dest: in_set_dropD)

lemma stripArticle_fixed: "\<forall>a\<in>set as. \<not> hasPrefix s a \<Longrightarrow> stripArticle as s = s"
  by (induction as) auto

lemma removeRune_fixed: "r \<notin> set s \<Longrightarrow> removeRune r s = s"
  by (simp add: removeRune_def filter_id_conv) blast

lemma set_removeRune: "set (removeRune x s) \<subseteq> set s"
  by (simp add: removeRune_def)

lemma notin_removeRune: "x \<notin> set (removeRune x s)"
  by (simp add: removeRune_def)

lemma notin_removeRune_mono: "x \<notin> set s \<Longrightarrow> x \<notin> set (removeRune y s)"
  by (simp add: removeRune_def)

text \<open>
  C3. The normalizer is idempotent: \<open>normalizeAnswer (normalizeAnswer s) = normalizeAnswer s\<close>.
  This fails: only one leading article is cut off, so \<^verbatim>\<open>the the x\<close> is normalized to
  \<^verbatim>\<open>the x\<close> and that to \<^verbatim>\<open>x\<close>. What holds: a normalized string is a fixed point as
  soon as it neither starts with an article nor ends in a punctuation character (for
  tables whose lower-casing is idempotent and keeps the space character, as Go's is).
\<close>

theorem normalizeAnswer_fixed:
  assumes idem: "\<forall>c. toLower U (toLower U c) = toLower U c"
    and sp: "toLower U 32 = 32"
    and art: "\<forall>a\<in>set articles. \<not> hasPrefix (normalizeAnswer U s) a"
    and punct: "normalizeAnswer U s = [] \<or> \<not> isPunct U (last (normalizeAnswer U s))"
  shows "normalizeAnswer U (normalizeAnswer U s) = normalizeAnswer U s"
proof -
  define a1 where "a1 = map (toLower U) (trimSpace s)"
  define a2 where "a2 = stripArticle articles a1"
  define a3 where "a3 = trimRightFunc a2 (isPunct U)"
  define a4 where
    "a4 = removeRune 163 (removeRune 8364 (removeRune 165 (removeRune 37 (removeRune 36 a3))))"
  define a5 where "a5 = removeNumberCommas a4"
  define r where "r = joinSpace (Fields a5)"
  have r: "normalizeAnswer U s = r"
    unfolding normalizeAnswer_def Let_def a1_def a2_def a3_def a4_def a5_def r_def ..
  have words: "\<forall>w\<in>set (Fields a5). wordlike w"
    using Fields_words [of _ a5] unfolding wordlike_def by blast
  have s1: "\<forall>c\<in>set a1. toLower U c = c"
    unfolding a1_def using idem by simp
  have "set a3 \<subseteq> set a1"
    unfolding a3_def a2_def
    using set_trimRightFunc [of "stripArticle articles a1" "isPunct U"]
      set_stripArticle [of articles a1] by blast
  moreover have "set a4 \<subseteq> set a3"
    unfolding a4_def using set_removeRune by blast
  ultimately have s41: "set a4 \<subseteq> set a1" by blast
  have sub: "set r \<subseteq> set a4 \<union> {32}"
    using set_joinSpace_Fields [of a5] set_removeNumberCommas [of a4]
    unfolding r_def a5_def by blast
  have low: "\<forall>c\<in>set r. toLower U c = c"
  proof
    fix c assume "c \<in> set r"
    with sub s41 have "c \<in> set a1 \<or> c = 32" by blast
    with s1 sp show "toLower U c = c" by blast
  qed
  have n36: "36 \<notin> set a4"
    unfolding a4_def by (intro notin_removeRune_mono notin_removeRune)
  have n37: "37 \<notin> set a4"
    unfolding a4_def by (intro notin_removeRune_mono notin_removeRune)
  have n165: "165 \<notin> set a4"
    unfolding a4_def by (intro notin_removeRune_mono notin_removeRune)
  have n8364: "8364 \<notin> set a4"
    unfolding a4_def by (intro notin_removeRune_mono notin_removeRune)
  have n163: "163 \<notin> set a4"
    unfolding a4_def by (intro notin_removeRune)
  have r36: "36 \<notin> set r" using sub n36 by auto
  have r37: "37 \<notin> set r" using sub n37 by auto
  have r165: "165 \<notin> set r" using sub n165 by auto
  have r8364: "8364 \<notin> set r" using sub n8364 by auto
  have r163: "163 \<notin> set r" using sub n163 by auto
  have b0: "trimSpace r = r"
    unfolding r_def using words by (rule trimSpace_joinSpace)
  have b1: "map (toLower U) r = r"
    using low by (simp add: map_idI)
  have b2: "stripArticle articles r = r"
    using art unfolding r by (rule stripArticle_fixed)
  have b3: "trimRightFunc r (isPunct U) = r"
    using punct unfolding r by (rule trimRightFunc_fixed)
  have b4: "removeRune 163 (removeRune 8364 (removeRune 165 (removeRune 37 (removeRune 36 r)))) = r"
    by (simp only: removeRune_fixed [OF r36] removeRune_fixed [OF r37] removeRune_fixed [OF r165]
        removeRune_fixed [OF r8364] removeRune_fixed [OF r163])
  have "\<not> matchString a5"
    unfolding a5_def by (rule removeNumberCommas_no_match)
  then have "\<not> matchString r"
    unfolding r_def by (rule joinSpace_Fields_no_match)
  then have b5: "removeNumberCommas r = r"
    by (rule removeNumberCommas_fixed)
  have b6: "joinSpace (Fields r) = r"
    unfolding r_def using words by (simp only: Fields_joinSpace)
  have "normalizeAnswer U r = r"
    unfolding normalizeAnswer_def [of U r] Let_def b0 b1 b2 b3 b4 b5 b6 ..
  then show ?thesis unfolding r .
qed

theorem normalizeAnswer_fixed_witness:
  "toLower asciiTables 32 = 32
   \<and> normalizeAnswer asciiTables (str ''The answer'') = str ''answer''
   \<and> \<not> hasPrefix (str ''answer'') (str ''the '')
   \<and> \<not> hasPrefix (str ''answer'') (str ''a '')
   \<and> \<not> hasPrefix (str ''answer'') (str ''an '')
   \<and> \<not> isPunct asciiTables (last (str ''answer''))
   \<and> normalizeAnswer asciiTables (normalizeAnswer asciiTables (str ''The answer''))
       = normalizeAnswer asciiTables (str ''The answer'')"
proof -
  have n: "normalizeAnswer asciiTables (str ''The answer'') = str ''answer''"
    by (simp add: norm_eval)
  have h1: "\<forall>c. toLower asciiTables (toLower asciiTables c) = toLower asciiTables c"
    by (simp add: asciiTables_def)
  have h2: "toLower asciiTables 32 = 32"
    by (simp add: asciiTables_def)
  have a1: "\<not> hasPrefix (str ''answer'') (str ''the '')"
    and a2: "\<not> hasPrefix (str ''answer'') (str ''a '')"
    and a3: "\<not> hasPrefix (str ''answer'') (str ''an '')"
    by (simp_all add: hasPrefix_def str_def)
  from a1 a2 a3
  have h3: "\<forall>a\<in>set articles. \<not> hasPrefix (normalizeAnswer asciiTables (str ''The answer'')) a"
    unfolding n by (simp add: articles_def)
  have p: "\<not> isPunct asciiTables (last (str ''answer''))"
    by (simp add: asciiTables_def str_def)
  then have h4: "normalizeAnswer asciiTables (str ''The answer'') = []
      \<or> \<not> isPunct asciiTables (last (normalizeAnswer asciiTables (str ''The answer'')))"
    unfolding n by simp
  note h5 = normalizeAnswer_fixed [OF h1 h2 h3 h4]
  show ?thesis
    by (intro conjI) (fact h2 n a1 a2 a3 p h5)+
qed

theorem normalizeAnswer_not_idempotent:
  "normalizeAnswer asciiTables (normalizeAnswer asciiTables (str ''the the x''))
     \<noteq> normalizeAnswer asciiTables (str ''the the x'')"
proof -
  have a: "normalizeAnswer asciiTables (str ''the the x'') = str ''the x''"
    by (simp add: norm_eval)
  have b: "normalizeAnswer asciiTables (str ''the x'') = str ''x''"
    by (simp add: norm_eval)
  show ?thesis unfolding a b by (simp add: str_def)
qed

section \<open>Properties of text matching\<close>

lemma countMatched_filter:
  "countMatched p ws n = n + length (filter (contains p) ws)"
  by (induction ws arbitrary: n) auto

lemma gaia_evaluateMatch_policy:
  "gaia_evaluateMatch U predicted expected
     = textMatchPolicy (normalizeAnswer U predicted) (normalizeAnswer U expected)"
  by (simp add: gaia_evaluateMatch_def textMatchPolicy_def Let_def countMatched_filter)

lemma textMatchPolicy_exact_partial: "fst (textMatchPolicy p e) \<Longrightarrow> snd (textMatchPolicy p e)"
  by (simp add: textMatchPolicy_def split: if_splits)

lemma gaia_Score:
  "Score (gaia_EvaluateSample U patterns (Inr response) (sample \<lparr> Sample.Expected := JStr expected \<rparr>))
     = (let (exact, partial) = gaia_evaluateMatch U (extractAnswer patterns response) expected
        in if exact then 1 else if partial then 1 / 2 else 0)"
  by (simp add: gaia_EvaluateSample_def Let_def zeroResult_def split: prod.splits)

text \<open>
  C2. Text-match policy. On the normalized prediction and the normalized expected answer
  the matcher applies, in this order, equality (exact and partial), containment in either
  direction (partial only), coverage of at least 0.7 of the expected tokens (partial
  only), and otherwise reports no match; an exact match is always a partial match; and
  \<^verbatim>\<open>EvaluateSample\<close> scores 1.0 for exact, 0.5 for partial only and 0.0 for neither.
\<close>

theorem text_match_policy:
  "gaia_evaluateMatch U predicted expected
     = textMatchPolicy (normalizeAnswer U predicted) (normalizeAnswer U expected)
   \<and> (fst (gaia_evaluateMatch U predicted expected)
        \<longrightarrow> snd (gaia_evaluateMatch U predicted expected))
   \<and> Score (gaia_EvaluateSample U patterns (Inr response)
              (sample \<lparr> Sample.Expected := JStr expected \<rparr>))
       = (let (exact, partial) = gaia_evaluateMatch U (extractAnswer patterns response) expected
          in if exact then 1 else if partial then 1 / 2 else 0)"
  using gaia_evaluateMatch_policy [of U predicted expected]
    textMatchPolicy_exact_partial [of "normalizeAnswer U predicted" "normalizeAnswer U expected"]
    gaia_Score
  by simp

theorem text_match_policy_witness:
  "fst (gaia_evaluateMatch asciiTables (str ''Paris'') (str ''paris''))
   \<and> snd (gaia_evaluateMatch asciiTables (str ''Paris'') (str ''paris''))
   \<and> gaia_evaluateMatch asciiTables (str ''The capital is Paris'') (str ''Paris'') = (False, True)
   \<and> gaia_evaluateMatch asciiTables (str ''banana'') (str ''apple'') = (False, False)"
proof -
  have a: "fst (gaia_evaluateMatch asciiTables (str ''Paris'') (str ''paris''))"
    by (simp add: gaia_evaluateMatch_def norm_eval)
  have b: "gaia_evaluateMatch asciiTables (str ''The capital is Paris'') (str ''Paris'') = (False, True)"
    by (simp add: gaia_evaluateMatch_def norm_eval)
  have c: "gaia_evaluateMatch asciiTables (str ''banana'') (str ''apple'') = (False, False)"
    by (simp add: gaia_evaluateMatch_def norm_eval)
  from a text_match_policy [of asciiTables "str ''Paris''" "str ''paris''"]
  have "snd (gaia_evaluateMatch asciiTables (str ''Paris'') (str ''paris''))" by blast
  with a b c show ?thesis by (intro conjI)
qed

section \<open>Properties of function-call scoring\<close>

lemma toFloat64_numericValue: "toFloat64 L v = numericValue L v"
  by (cases v) (simp_all add: numericValue_def)

lemma compareValues_valuesEqual: "compareValues L a b = valuesEqual L a b"
  by (auto simp: compareValues_def valuesEqual_def toFloat64_numericValue Let_def
      split: option.splits)

lemma countParams_filter:
  "countParams L (Arguments p) args n = n + length (filter (paramMatches L p) args)"
proof (induction args arbitrary: n)
  case Nil
  show ?case by simp
next
  case (Cons a args)
  obtain k v where a: "a = (k, v)" by (cases a)
  show ?case
    unfolding a
    by (simp add: Cons paramMatches_def compareValues_valuesEqual split: option.splits)
qed

lemma compareFunctionCall_pairScore: "compareFunctionCall L p e = pairScore L p e"
  by (simp add: compareFunctionCall_def pairScore_def countParams_filter)

lemma pairScore_bounds: "0 \<le> pairScore L p e \<and> pairScore L p e \<le> 1"
proof -
  have "length (filter (paramMatches L p) (Arguments e)) \<le> length (Arguments e)"
    by (rule length_filter_le)
  then have "real (length (filter (paramMatches L p) (Arguments e))) \<le> real (length (Arguments e))"
    by simp
  then show ?thesis
    by (simp add: pairScore_def divide_le_eq_1)
qed

lemma Max_insert_max:
  "finite S \<Longrightarrow> Max (insert (max a b) S) = Max (insert a (insert b S))" for a b :: real
proof (cases "S = {}")
  case True
  then show ?thesis by (simp add: max.commute)
next
  case False
  assume "finite S"
  with False show ?thesis by (simp add: max.assoc)
qed

lemma bestScoreLoop_Max:
  "bestScoreLoop L e ps b = Max (insert b ((\<lambda>p. pairScore L p e) ` set ps))"
proof (induction ps arbitrary: b)
  case Nil
  show ?case by simp
next
  case (Cons p ps)
  have "(if pairScore L p e > b then pairScore L p e else b) = max b (pairScore L p e)"
    by (simp add: max_def)
  then have "bestScoreLoop L e (p # ps) b
      = Max (insert (max b (pairScore L p e)) ((\<lambda>p. pairScore L p e) ` set ps))"
    by (simp add: Cons compareFunctionCall_pairScore Let_def)
  also have "\<dots> = Max (insert b (insert (pairScore L p e) ((\<lambda>p. pairScore L p e) ` set ps)))"
    by (rule Max_insert_max) simp
  finally show ?case by simp
qed

lemma bestScoreLoop_bestMatch: "bestScoreLoop L e ps 0 = bestMatch L ps e"
  by (simp add: bestScoreLoop_Max bestMatch_def)

lemma bestMatch_bounds: "0 \<le> bestMatch L ps e \<and> bestMatch L ps e \<le> 1"
proof -
  let ?S = "insert 0 ((\<lambda>p. pairScore L p e) ` set ps)"
  have fin: "finite ?S" by simp
  have "\<forall>x\<in>?S. x \<le> 1" using pairScore_bounds by auto
  with fin have "Max ?S \<le> 1" by (simp add: Max_le_iff del: Max_insert)
  moreover from fin have "0 \<le> Max ?S" by (intro Max_ge) auto
  ultimately show ?thesis by (simp add: bestMatch_def)
qed

lemma scoreLoop_sum:
  "scoreLoop L ps es (m, t)
     = (m + length (filter (\<lambda>e. bestMatch L ps e \<ge> 1) es), t + sum_list (map (bestMatch L ps) es))"
  by (induction es arbitrary: m t) (simp_all add: bestScoreLoop_bestMatch Let_def)

lemma length_filter_eq_iff: "length (filter P xs) = length xs \<longleftrightarrow> (\<forall>x\<in>set xs. P x)"
proof
  assume eq: "length (filter P xs) = length xs"
  show "\<forall>x\<in>set xs. P x"
  proof (rule ccontr)
    assume "\<not> (\<forall>x\<in>set xs. P x)"
    then obtain x where "x \<in> set xs" "\<not> P x" by blast
    then have "length (filter P xs) < length xs" by (rule length_filter_less)
    with eq show False by simp
  qed
next
  assume "\<forall>x\<in>set xs. P x"
  then show "length (filter P xs) = length xs" by simp
qed

lemma bfcl_evaluateMatch_score:
  assumes "parseGroundTruth L gt = Some (Inr expectedCalls)" and "expectedCalls \<noteq> []"
  shows "\<exists>details. bfcl_evaluateMatch L predicted gt
           = Some ((\<forall>e\<in>set expectedCalls. bestMatch L predicted e = 1),
                   sum_list (map (bestMatch L predicted) expectedCalls)
                     / real (length expectedCalls),
                   details)"
proof (cases "predicted = []")
  case True
  then have "\<forall>e\<in>set expectedCalls. bestMatch L predicted e = 0"
    by (simp add: bestMatch_def)
  moreover from this have "sum_list (map (bestMatch L predicted) expectedCalls) = 0"
    by (simp add: sum_list_0 cong: map_cong)
  moreover from assms(2) obtain e where "e \<in> set expectedCalls" by (cases expectedCalls) auto
  ultimately have "\<not> (\<forall>e\<in>set expectedCalls. bestMatch L predicted e = 1)"
    and "sum_list (map (bestMatch L predicted) expectedCalls) / real (length expectedCalls) = 0"
    by auto
  with True assms show ?thesis
    by (simp add: bfcl_evaluateMatch_def)
next
  case False
  have "(length (filter (\<lambda>e. bestMatch L predicted e \<ge> 1) expectedCalls) = length expectedCalls)
      = (\<forall>e\<in>set expectedCalls. bestMatch L predicted e = 1)"
    using bestMatch_bounds [of L predicted]
    by (simp add: length_filter_eq_iff) (metis order.antisym order.refl)
  with False assms show ?thesis
    by (simp add: bfcl_evaluateMatch_def scoreLoop_sum Let_def)
qed

lemmas lib_eval =
  testLib_def str_def asciiTables_def judgeReplyTen_def judgeReplyFour_def callsReply_def
  judgeReplyFenced_def fencedCallReply_def

text \<open>
  C1. Function-call scoring. \<^verbatim>\<open>compareFunctionCall\<close> computes the pair score of the
  specification. For every list of predicted calls and every ground truth that parses to
  a non-empty list of expected calls, \<^verbatim>\<open>evaluateMatch\<close> reports success exactly when
  every expected call has best-match score 1, and its score is the arithmetic mean of the
  best-match scores of the expected calls.
\<close>

theorem function_call_scoring:
  "compareFunctionCall L p e = pairScore L p e
   \<and> (parseGroundTruth L gt = Some (Inr expectedCalls) \<and> expectedCalls \<noteq> [] \<longrightarrow>
        (\<exists>details. bfcl_evaluateMatch L predicted gt
           = Some ((\<forall>e\<in>set expectedCalls. bestMatch L predicted e = 1),
                   sum_list (map (bestMatch L predicted) expectedCalls)
                     / real (length expectedCalls),
                   details)))"
  using compareFunctionCall_pairScore [of L p e]
    bfcl_evaluateMatch_score [of L gt expectedCalls predicted]
  by blast

theorem function_call_scoring_witness:
  "parseGroundTruth testLib
      (JArr [JObj [(str ''name'', JStr (str ''f'')),
                   (str ''arguments'', JObj [(str ''x'', JNum 1), (str ''y'', JNum 2)])]])
     = Some (Inr [\<lparr> Name = str ''f'', Arguments = [(str ''x'', JNum 1), (str ''y'', JNum 2)] \<rparr>])
   \<and> compareValues testLib (JStr (str ''1.0'')) (JNum 1)
   \<and> compareFunctionCall testLib
         \<lparr> Name = str ''f'', Arguments = [(str ''x'', JStr (str ''1.0'')), (str ''y'', JNum 3)] \<rparr>
         \<lparr> Name = str ''f'', Arguments = [(str ''x'', JNum 1), (str ''y'', JNum 2)] \<rparr> = 1 / 2
   \<and> (\<exists>details. bfcl_evaluateMatch testLib
          [\<lparr> Name = str ''f'', Arguments = [(str ''x'', JStr (str ''1.0'')), (str ''y'', JNum 3)] \<rparr>]
          (JArr [JObj [(str ''name'', JStr (str ''f'')),
                   (str ''arguments'', JObj [(str ''x'', JNum 1), (str ''y'', JNum 2)])]])
        = Some (False, 1 / 2, details))
   \<and> (\<exists>details. bfcl_evaluateMatch testLib
          [\<lparr> Name = str ''g'', Arguments = [] \<rparr>,
           \<lparr> Name = str ''f'', Arguments = [(str ''x'', JStr (str ''1.0'')), (str ''y'', JNum 2)] \<rparr>]
          (JArr [JObj [(str ''name'', JStr (str ''f'')),
                   (str ''arguments'', JObj [(str ''x'', JNum 1), (str ''y'', JNum 2)])]])
        = Some (True, 1, details))"
proof -
  let ?gt = "JArr [JObj [(str ''name'', JStr (str ''f'')),
                   (str ''arguments'', JObj [(str ''x'', JNum 1), (str ''y'', JNum 2)])]]"
  let ?e = "\<lparr> Name = str ''f'', Arguments = [(str ''x'', JNum 1), (str ''y'', JNum 2)] \<rparr>"
  let ?p = "\<lparr> Name = str ''f'', Arguments = [(str ''x'', JStr (str ''1.0'')), (str ''y'', JNum 3)] \<rparr>"
  let ?q = "\<lparr> Name = str ''f'', Arguments = [(str ''x'', JStr (str ''1.0'')), (str ''y'', JNum 2)] \<rparr>"
  let ?g = "\<lparr> Name = str ''g'', Arguments = [] \<rparr>"
  have gt: "parseGroundTruth testLib ?gt = Some (Inr [?e])"
    by (simp add: parseGroundTruth.simps str_def)
  have cv: "compareValues testLib (JStr (str ''1.0'')) (JNum 1)"
    by (simp add: compareValues_def lib_eval)
  have ps: "pairScore testLib ?p ?e = 1 / 2"
    by (simp add: pairScore_def paramMatches_def valuesEqual_def numericValue_def lib_eval)
  have qs: "pairScore testLib ?q ?e = 1"
    by (simp add: pairScore_def paramMatches_def valuesEqual_def numericValue_def lib_eval)
  have gs: "pairScore testLib ?g ?e = 0"
    by (simp add: pairScore_def str_def)
  from ps have bm: "bestMatch testLib [?p] ?e = 1 / 2"
    by (simp add: bestMatch_def)
  from qs gs have bq: "bestMatch testLib [?g, ?q] ?e = 1"
    by (simp add: bestMatch_def)
  from ps function_call_scoring [of testLib ?p ?e ?gt "[?e]" "[?p]"]
  have cf: "compareFunctionCall testLib ?p ?e = 1 / 2"
    by simp
  from gt function_call_scoring [of testLib ?p ?e ?gt "[?e]" "[?p]"]
  obtain details where "bfcl_evaluateMatch testLib [?p] ?gt
      = Some ((\<forall>e\<in>set [?e]. bestMatch testLib [?p] e = 1),
              sum_list (map (bestMatch testLib [?p]) [?e]) / real (length [?e]), details)"
    by blast
  with bm have r1: "\<exists>details. bfcl_evaluateMatch testLib [?p] ?gt = Some (False, 1 / 2, details)"
    by simp
  from gt function_call_scoring [of testLib ?p ?e ?gt "[?e]" "[?g, ?q]"]
  obtain details' where "bfcl_evaluateMatch testLib [?g, ?q] ?gt
      = Some ((\<forall>e\<in>set [?e]. bestMatch testLib [?g, ?q] e = 1),
              sum_list (map (bestMatch testLib [?g, ?q]) [?e]) / real (length [?e]), details')"
    by blast
  with bq have r2: "\<exists>details. bfcl_evaluateMatch testLib [?g, ?q] ?gt = Some (True, 1, details)"
    by simp
  show ?thesis
    by (intro conjI) (fact gt cv cf r1 r2)+
qed

section \<open>Properties of ground-truth parsing\<close>

lemma parseGroundTruth_returns_aux:
  assumes decr: "\<forall>s t. unmarshal L s = Inr (JStr t) \<longrightarrow> length t < length s"
  shows "\<exists>parsed. parseGroundTruth L (JStr s) = Some parsed"
proof (induction "length s" arbitrary: s rule: less_induct)
  case less
  show ?case
  proof (cases "unmarshal L s")
    case (Inl err)
    then show ?thesis by (simp add: parseGroundTruth.simps)
  next
    case (Inr parsed)
    show ?thesis
    proof (cases parsed)
      case (JStr t)
      with Inr decr have "length t < length s" by blast
      then obtain r where "parseGroundTruth L (JStr t) = Some r" using less by blast
      with Inr JStr show ?thesis by (subst parseGroundTruth.simps) simp
    qed (use Inr in \<open>simp_all add: parseGroundTruth.simps split: sum.splits\<close>)
  qed
qed

lemma parseGroundTruth_returns:
  assumes "\<forall>s t. unmarshal L s = Inr (JStr t) \<longrightarrow> length t < length s"
  shows "\<exists>parsed. parseGroundTruth L gt = Some parsed"
proof (cases gt)
  case (JStr s)
  with parseGroundTruth_returns_aux [OF assms] show ?thesis by simp
qed (simp_all add: parseGroundTruth.simps split: sum.splits)

lemma bfcl_evaluateMatch_empty:
  assumes "parseGroundTruth L gt = Some parsed" and "predicted = [] \<or> parsed = Inr []"
  shows "\<exists>details. bfcl_evaluateMatch L predicted gt = Some (False, 0, details)"
  using assms by (cases parsed) (auto simp: bfcl_evaluateMatch_def Let_def)

text \<open>
  C10. No vacuous success. For a library whose decoder returns, out of a JSON string,
  only a shorter string (as \<^verbatim>\<open>encoding/json\<close> does, the quotes being dropped),
  \<^verbatim>\<open>parseGroundTruth\<close> returns; and whenever the list of predicted calls is empty, or
  the ground truth parses to an empty list of expected calls (as it does when every entry
  is skipped), \<^verbatim>\<open>evaluateMatch\<close> returns no success and the score 0.
\<close>

theorem no_vacuous_success:
  assumes "\<forall>s t. unmarshal L s = Inr (JStr t) \<longrightarrow> length t < length s"
  shows "\<exists>parsed. parseGroundTruth L gt = Some parsed
           \<and> (predicted = [] \<or> parsed = Inr [] \<longrightarrow>
                (\<exists>details. bfcl_evaluateMatch L predicted gt = Some (False, 0, details)))"
  using parseGroundTruth_returns [OF assms, of gt] bfcl_evaluateMatch_empty [of L gt _ predicted]
  by blast

theorem no_vacuous_success_witness:
  "parseGroundTruth testLib (JArr [JNum 1, JBool True, JStr (str ''?'')]) = Some (Inr [])
   \<and> (\<exists>details. bfcl_evaluateMatch testLib [\<lparr> Name = str ''f'', Arguments = [] \<rparr>]
                    (JArr [JNum 1, JBool True, JStr (str ''?'')]) = Some (False, 0, details))"
proof -
  have d: "\<forall>s t. unmarshal testLib s = Inr (JStr t) \<longrightarrow> length t < length s"
    by (simp add: testLib_def)
  have p: "parseGroundTruth testLib (JArr [JNum 1, JBool True, JStr (str ''?'')]) = Some (Inr [])"
    by (simp add: parseGroundTruth.simps parsePythonFunctionCall_def testLib_def)
  from no_vacuous_success [OF d, of "JArr [JNum 1, JBool True, JStr (str ''?'')]"
      "[\<lparr> Name = str ''f'', Arguments = [] \<rparr>]"] p
  have "\<exists>details. bfcl_evaluateMatch testLib [\<lparr> Name = str ''f'', Arguments = [] \<rparr>]
                    (JArr [JNum 1, JBool True, JStr (str ''?'')]) = Some (False, 0, details)"
    by simp
  with p show ?thesis by blast
qed

lemma mapSet_fresh: "k \<notin> fst ` set m \<Longrightarrow> mapSet m k v = m @ [(k, v)]"
  by (induction m) auto

lemma paramArgs_distinct:
  "distinct (map fst acc @ map fst ps) \<Longrightarrow>
     paramArgs ps acc = acc @ map (\<lambda>(paramName, paramVal). (paramName, canonical paramVal)) ps"
proof (induction ps arbitrary: acc)
  case Nil
  show ?case by simp
next
  case (Cons a ps)
  obtain k v where a: "a = (k, v)" by (cases a)
  from Cons.prems have fresh: "k \<notin> fst ` set acc"
    by (auto simp: a)
  from Cons.prems have "distinct (map fst (acc @ [(k, canonical v)]) @ map fst ps)"
    by (auto simp: a)
  from Cons.IH [OF this] fresh show ?case
    by (simp add: a mapSet_fresh canonical_def)
qed

lemma no_name_string:
  "\<forall>(k, v)\<in>set m. \<exists>ps. v = JObj ps \<Longrightarrow> (case map_of m key of Some (JStr name) \<Rightarrow> f name | _ \<Rightarrow> g) = g"
proof (cases "map_of m key")
  case None
  then show ?thesis by simp
next
  case (Some v)
  assume "\<forall>(k, v)\<in>set m. \<exists>ps. v = JObj ps"
  with map_of_SomeD [OF Some] obtain ps where "v = JObj ps" by blast
  with Some show ?thesis by simp
qed

text \<open>
  C7. The map-of-function-names format. A ground-truth entry that maps function names to
  parameter maps parses to one expected call per key, named by the key, whose arguments
  are the parameters with their canonical values: the first element where the value is a
  non-empty list. In particular \<^verbatim>\<open>{"f": {"x": [1,2]}}\<close> parses to the call \<^verbatim>\<open>f\<close> with
  \<^verbatim>\<open>x == 1\<close>.
\<close>

theorem function_name_map_format:
  assumes "\<forall>(funcName, params)\<in>set m. \<exists>ps. params = JObj ps \<and> distinct (map fst ps)"
  shows "parseGroundTruthItem L (JObj m)
     = Inr (map (\<lambda>(funcName, params).
               \<lparr> Name = funcName,
                 Arguments = (case params of
                    JObj ps \<Rightarrow> map (\<lambda>(paramName, paramVal). (paramName, canonical paramVal)) ps
                  | _ \<Rightarrow> []) \<rparr>) m)"
proof -
  from assms have "\<forall>(k, v)\<in>set m. \<exists>ps. v = JObj ps" by blast
  then have "parseGroundTruthItem L (JObj m)
     = Inr (map (\<lambda>(funcName, params).
                      \<lparr> Name = funcName,
                        Arguments = (case params of JObj paramsMap \<Rightarrow> paramArgs paramsMap []
                                     | _ \<Rightarrow> []) \<rparr>) m)"
    by (simp add: no_name_string)
  moreover have "map (\<lambda>(funcName, params).
                      \<lparr> Name = funcName,
                        Arguments = (case params of JObj paramsMap \<Rightarrow> paramArgs paramsMap []
                                     | _ \<Rightarrow> []) \<rparr>) m
     = map (\<lambda>(funcName, params).
               \<lparr> Name = funcName,
                 Arguments = (case params of
                    JObj ps \<Rightarrow> map (\<lambda>(paramName, paramVal). (paramName, canonical paramVal)) ps
                  | _ \<Rightarrow> []) \<rparr>) m"
  proof (rule map_cong [OF refl])
    fix x assume x: "x \<in> set m"
    obtain k v where kv: "x = (k, v)" by (cases x)
    with x assms obtain ps where "v = JObj ps" "distinct (map fst ps)" by blast
    then show "(case x of (funcName, params) \<Rightarrow>
                      \<lparr> Name = funcName,
                        Arguments = (case params of JObj paramsMap \<Rightarrow> paramArgs paramsMap []
                                     | _ \<Rightarrow> []) \<rparr>)
        = (case x of (funcName, params) \<Rightarrow>
               \<lparr> Name = funcName,
                 Arguments = (case params of
                    JObj ps \<Rightarrow> map (\<lambda>(paramName, paramVal). (paramName, canonical paramVal)) ps
                  | _ \<Rightarrow> []) \<rparr>)"
      by (simp add: kv paramArgs_distinct)
  qed
  ultimately show ?thesis by simp
qed

theorem function_name_map_format_witness:
  "parseGroundTruthItem testLib (JObj [(str ''f'', JObj [(str ''x'', JArr [JNum 1, JNum 2])])])
     = Inr [\<lparr> Name = str ''f'', Arguments = [(str ''x'', JNum 1)] \<rparr>]"
proof -
  have h: "\<forall>(funcName, params)\<in>set [(str ''f'', JObj [(str ''x'', JArr [JNum 1, JNum 2])])].
       \<exists>ps. params = JObj ps \<and> distinct (map fst ps)"
    by simp
  from function_name_map_format [OF h, of testLib] show ?thesis
    by (simp add: canonical_def)
qed

section \<open>Properties of the difficulty analysis\<close>

lemma levelRates_distinct:
  "distinct (map fst acc @ map fst lms) \<Longrightarrow>
     levelRates lms acc = acc @ map (\<lambda>(level, lm). (level, ExactMatchRate lm)) lms"
proof (induction lms arbitrary: acc)
  case Nil
  show ?case by simp
next
  case (Cons a lms)
  obtain k v where a: "a = (k, v)" by (cases a)
  from Cons.prems have fresh: "k \<notin> fst ` set acc"
    by (auto simp: a)
  from Cons.prems have "distinct (map fst (acc @ [(k, ExactMatchRate v)]) @ map fst lms)"
    by (auto simp: a)
  from Cons.IH [OF this] fresh show ?case
    by (simp add: a mapSet_fresh)
qed

lemma map_of_rates:
  "map_of (map (\<lambda>(level, lm). (level, ExactMatchRate lm)) lms) k
     = map_option ExactMatchRate (map_of lms k)"
  by (induction lms) auto

lemma three_keys:
  assumes "distinct (map fst lms)"
    and "map_of lms (1::int) = Some m1" "map_of lms 2 = Some m2" "map_of lms 3 = Some m3"
  shows "3 \<le> length lms"
proof -
  from assms(2-4) have "{1, 2, 3} \<subseteq> set (map fst lms)"
    by (auto dest!: map_of_SomeD intro: rev_image_eqI)
  then have "card {1, 2, 3 :: int} \<le> card (set (map fst lms))"
    by (intro card_mono) auto
  also have "\<dots> = length lms"
    using distinct_card [OF assms(1)] by simp
  finally show ?thesis by simp
qed

text \<open>
  C9. Difficulty progression. For a level-metrics map that holds the levels 1, 2 and 3,
  the analysis reports the drop from level 1 to level 2 as the difference of their
  exact-match rates, and likewise from level 1 to level 3; strictly decreasing rates are
  classified \<^verbatim>\<open>expected_degradation\<close> (rates 0.8, 0.5, 0.2 give the drops 0.3 and 0.6);
  and a level 2 rate above the level 1 rate is classified \<^verbatim>\<open>anomaly_level2_better\<close>.
\<close>

theorem difficulty_progression:
  assumes "distinct (map fst levelMetrics)"
    and "map_of levelMetrics 1 = Some m1"
    and "map_of levelMetrics 2 = Some m2"
    and "map_of levelMetrics 3 = Some m3"
  shows "map_of (difficulty_drops (AnalyzeDifficultyProgression levelMetrics))
             (str ''level1_to_level2'') = Some (ExactMatchRate m1 - ExactMatchRate m2)
     \<and> map_of (difficulty_drops (AnalyzeDifficultyProgression levelMetrics))
             (str ''level1_to_level3'') = Some (ExactMatchRate m1 - ExactMatchRate m3)
     \<and> (ExactMatchRate m1 > ExactMatchRate m2 \<and> ExactMatchRate m2 > ExactMatchRate m3 \<longrightarrow>
          performance_pattern (AnalyzeDifficultyProgression levelMetrics)
            = str ''expected_degradation'')
     \<and> (ExactMatchRate m2 > ExactMatchRate m1 \<longrightarrow>
          performance_pattern (AnalyzeDifficultyProgression levelMetrics)
            = str ''anomaly_level2_better'')"
proof -
  define rates where "rates = levelRates levelMetrics []"
  have rates: "rates = map (\<lambda>(level, lm). (level, ExactMatchRate lm)) levelMetrics"
    unfolding rates_def using assms(1) by (simp add: levelRates_distinct)
  have r1: "map_of rates 1 = Some (ExactMatchRate m1)"
    and r2: "map_of rates 2 = Some (ExactMatchRate m2)"
    and r3: "map_of rates 3 = Some (ExactMatchRate m3)"
    using assms(2-4) by (simp_all add: rates map_of_rates)
  have len: "3 \<le> length rates"
    using three_keys [OF assms] by (simp add: rates)
  have k12: "str ''level1_to_level3'' \<noteq> str ''level1_to_level2''"
    and k13: "str ''level2_to_level3'' \<noteq> str ''level1_to_level2''"
    and k23: "str ''level2_to_level3'' \<noteq> str ''level1_to_level3''"
    by (simp_all add: str_def)
  from len have len2: "2 \<le> length rates" "\<not> length rates < 3" by simp_all
  show ?thesis
    unfolding AnalyzeDifficultyProgression_def Let_def rates_def [symmetric]
    using r1 r2 r3 len2 k12 k13 k23
    by (simp add: rateAt_def)
qed

theorem difficulty_progression_witness:
  "distinct (map fst [(1::int, exampleLevel 1 (8/10)), (2, exampleLevel 2 (5/10)), (3, exampleLevel 3 (2/10))])
   \<and> map_of (difficulty_drops (AnalyzeDifficultyProgression
         [(1, exampleLevel 1 (8/10)), (2, exampleLevel 2 (5/10)), (3, exampleLevel 3 (2/10))])) (str ''level1_to_level2'')
       = Some (3/10)
   \<and> map_of (difficulty_drops (AnalyzeDifficultyProgression
         [(1, exampleLevel 1 (8/10)), (2, exampleLevel 2 (5/10)), (3, exampleLevel 3 (2/10))])) (str ''level1_to_level3'')
       = Some (6/10)
   \<and> performance_pattern (AnalyzeDifficultyProgression
         [(1, exampleLevel 1 (8/10)), (2, exampleLevel 2 (5/10)), (3, exampleLevel 3 (2/10))]) = str ''expected_degradation''"
proof -
  let ?m = "[(1::int, exampleLevel 1 (8/10)), (2, exampleLevel 2 (5/10)), (3, exampleLevel 3 (2/10))]"
  have d: "distinct (map fst ?m)" by simp
  have a: "map_of ?m 1 = Some (exampleLevel 1 (8/10))" by simp
  have b: "map_of ?m 2 = Some (exampleLevel 2 (5/10))" by simp
  have c: "map_of ?m 3 = Some (exampleLevel 3 (2/10))" by simp
  from difficulty_progression [OF d a b c] d show ?thesis
    by (simp add: exampleLevel_def)
qed

section \<open>Properties of the judge\<close>

lemma parseJudgeResponse_total:
  "TotalScore (parseJudgeResponse L response)
     = (Correctness (parseJudgeResponse L response) + Clarity (parseJudgeResponse L response)
        + DifficultyMatch (parseJudgeResponse L response)
        + Completeness (parseJudgeResponse L response)) / 4"
  by (simp add: parseJudgeResponse_def Let_def split: option.splits)

lemma jsonContent_judgeSource: "jsonContent L response = judgeSource L response"
  by (cases "codeBlockPattern L response") (simp_all add: jsonContent_def judgeSource_def)

lemma noJsonObject_unmarshalMap:
  "noJsonObject L s \<Longrightarrow> unmarshalMap L s = None \<or> unmarshalMap L s = Some []"
proof (cases "unmarshal L s")
  case (Inl e)
  then show ?thesis by (simp add: unmarshalMap_def)
next
  case (Inr v)
  assume "noJsonObject L s"
  with Inr show ?thesis
    by (cases v) (simp_all add: unmarshalMap_def noJsonObject_def)
qed

lemma parseJudgeResponse_default:
  assumes "noJsonObject L (judgeSource L response)"
  shows "parseJudgeResponse L response
       = \<lparr> Correctness = 3, Clarity = 3, DifficultyMatch = 3, Completeness = 3,
           TotalScore = 3, Comments = [] \<rparr>"
proof -
  from noJsonObject_unmarshalMap [OF assms]
  have "unmarshalMap L (jsonContent L response) = None
      \<or> unmarshalMap L (jsonContent L response) = Some []"
    by (simp add: jsonContent_judgeSource)
  then show ?thesis
    by (auto simp: parseJudgeResponse_def Let_def floatField_def stringField_def)
qed

lemma judge_EvaluateSample_default:
  "noJsonObject L (judgeSource L response) \<Longrightarrow>
     Score (judge_EvaluateSample L (Inr response) sample) = 3
     \<and> Success (judge_EvaluateSample L (Inr response) sample)
     \<and> Error (judge_EvaluateSample L (Inr response) sample) = []"
  by (simp add: judge_EvaluateSample_def parseJudgeResponse_default Let_def zeroResult_def)

text \<open>
  C5. Judge parse degradation. The total score is always the arithmetic mean of the four
  dimensions the parser returns. When no JSON object can be decoded from the judge's
  reply (from its first fenced code block if it has one, else from the whole reply), all
  four dimensions are 3, the total is 3, and the sample is scored 3 and marked successful,
  with no error recorded.
\<close>

theorem judge_parse_degradation:
  "TotalScore (parseJudgeResponse L response)
     = (Correctness (parseJudgeResponse L response) + Clarity (parseJudgeResponse L response)
        + DifficultyMatch (parseJudgeResponse L response)
        + Completeness (parseJudgeResponse L response)) / 4
   \<and> (noJsonObject L (judgeSource L response) \<longrightarrow>
        parseJudgeResponse L response
          = \<lparr> Correctness = 3, Clarity = 3, DifficultyMatch = 3, Completeness = 3,
              TotalScore = 3, Comments = [] \<rparr>
        \<and> Score (judge_EvaluateSample L (Inr response) sample) = 3
        \<and> Success (judge_EvaluateSample L (Inr response) sample)
        \<and> Error (judge_EvaluateSample L (Inr response) sample) = [])"
  using parseJudgeResponse_total [of L response] parseJudgeResponse_default [of L response]
    judge_EvaluateSample_default [of L response sample]
  by blast

theorem judge_parse_degradation_witness:
  "unmarshal testLib judgeReplyFenced
     = Inr (JObj [(str ''correctness'', JNum 5), (str ''comments'', JStr (str ''```x```''))])
   \<and> judgeSource testLib judgeReplyFenced = str ''x''
   \<and> noJsonObject testLib (str ''x'')
   \<and> Correctness (parseJudgeResponse testLib judgeReplyFenced) = 3
   \<and> TotalScore (parseJudgeResponse testLib judgeReplyFenced) = 3
   \<and> Score (judge_EvaluateSample testLib (Inr judgeReplyFenced) exampleSample) = 3
   \<and> Success (judge_EvaluateSample testLib (Inr judgeReplyFenced) exampleSample)
   \<and> Error (judge_EvaluateSample testLib (Inr judgeReplyFenced) exampleSample) = []
   \<and> judgeSource testLib (str ''null'') = str ''null''
   \<and> unmarshal testLib (str ''null'') = Inr JNull
   \<and> parseJudgeResponse testLib (str ''null'')
       = \<lparr> Correctness = 3, Clarity = 3, DifficultyMatch = 3, Completeness = 3,
           TotalScore = 3, Comments = [] \<rparr>
   \<and> Success (judge_EvaluateSample testLib (Inr (str ''null'')) exampleSample)
   \<and> Success (judge_EvaluateSample testLib (Inr (str ''no JSON here'')) exampleSample)"
proof -
  have u: "unmarshal testLib judgeReplyFenced
     = Inr (JObj [(str ''correctness'', JNum 5), (str ''comments'', JStr (str ''```x```''))])"
    by (simp add: lib_eval)
  have s1: "judgeSource testLib judgeReplyFenced = str ''x''"
    by (simp add: judgeSource_def lib_eval)
  have n1: "noJsonObject testLib (str ''x'')"
    by (simp add: noJsonObject_def lib_eval)
  have s2: "judgeSource testLib (str ''null'') = str ''null''"
    by (simp add: judgeSource_def lib_eval)
  have u2: "unmarshal testLib (str ''null'') = Inr JNull"
    by (simp add: lib_eval)
  then have n2: "noJsonObject testLib (str ''null'')"
    by (simp add: noJsonObject_def)
  have s3: "judgeSource testLib (str ''no JSON here'') = str ''no JSON here''"
    by (simp add: judgeSource_def lib_eval)
  have n3: "noJsonObject testLib (str ''no JSON here'')"
    by (simp add: noJsonObject_def lib_eval)
  from judge_parse_degradation [of testLib judgeReplyFenced exampleSample] s1 n1
  have a: "Correctness (parseJudgeResponse testLib judgeReplyFenced) = 3"
    "TotalScore (parseJudgeResponse testLib judgeReplyFenced) = 3"
    "Score (judge_EvaluateSample testLib (Inr judgeReplyFenced) exampleSample) = 3"
    "Success (judge_EvaluateSample testLib (Inr judgeReplyFenced) exampleSample)"
    "Error (judge_EvaluateSample testLib (Inr judgeReplyFenced) exampleSample) = []"
    by simp_all
  from judge_parse_degradation [of testLib "str ''null''" exampleSample] s2 n2
  have b: "parseJudgeResponse testLib (str ''null'')
       = \<lparr> Correctness = 3, Clarity = 3, DifficultyMatch = 3, Completeness = 3,
           TotalScore = 3, Comments = [] \<rparr>"
    "Success (judge_EvaluateSample testLib (Inr (str ''null'')) exampleSample)"
    by simp_all
  from judge_parse_degradation [of testLib "str ''no JSON here''" exampleSample] s3 n3
  have c: "Success (judge_EvaluateSample testLib (Inr (str ''no JSON here'')) exampleSample)"
    by simp
  show ?thesis
    by (intro conjI) (fact u s1 n1 a s2 u2 b c)+
qed

section \<open>Bounds of the scores\<close>











lemma ex_match:
  "\<exists>details. bfcl_evaluateMatch testLib [\<lparr> Name = str ''f'', Arguments = [] \<rparr>]
      (JArr [JObj [(str ''name'', JStr (str ''f''))]]) = Some (True, 1, details)"
  by (simp add: bfcl_evaluateMatch_def parseGroundTruth.simps compareFunctionCall_def str_def)





section \<open>Properties of the evaluation runs\<close>




text \<open>
  The three failure paths above record their message in \<^verbatim>\<open>Error\<close>. The message of a
  ground truth that cannot be parsed is returned by \<^verbatim>\<open>evaluateMatch\<close> inside the details,
  and \<^verbatim>\<open>EvaluateSample\<close> copies the details and nothing else, so on this path alone
  \<^verbatim>\<open>Error\<close> stays empty.
\<close>

lemma bfcl_gt_parse_error:
  "extractFunctionCalls L response = Inr calls \<Longrightarrow> map_of G (ID sample) = Some gt \<Longrightarrow>
   parseGroundTruth L gt = Some (Inl e) \<Longrightarrow>
     \<exists>r. bfcl_EvaluateSample L G (Inr response) sample = Some r \<and> failed r []
          \<and> map_of (Details r) (str ''gt_parse_error'') = Some (DStr e)"
  by (simp add: bfcl_EvaluateSample_def bfcl_evaluateMatch_def zeroResult_def failed_def Let_def)













lemmas trim_eval = trimSpace_def trimRightFunc_def isSpace_def







lemma ex_extract_reused:
  "extractFunctionCalls testLib fencedCallReply = Inr [\<lparr> Name = str ''f'', Arguments = [] \<rparr>]"
  by (simp add: extractFunctionCalls_def zeroCall_def trim_eval lib_eval)

text \<open>
  The first decoding of \<open>fencedCallReply\<close> into \<^verbatim>\<open>singleCall\<close> fails after it has set the
  name; the decoding of the code block \<^verbatim>\<open>{}\<close> into the same variable succeeds and
  leaves the name in place, so a call is extracted and the sample is scored.
\<close>

lemma ex_bfcl_reused:
  "\<exists>r. bfcl_EvaluateSample testLib exampleGroundTruth (Inr fencedCallReply) exampleSample = Some r
        \<and> Error r = [] \<and> Success r \<and> Score r = 1"
proof -
  from ex_match obtain details where
    "bfcl_evaluateMatch testLib [\<lparr> Name = str ''f'', Arguments = [] \<rparr>]
      (JArr [JObj [(str ''name'', JStr (str ''f''))]]) = Some (True, 1, details)" by blast
  then show ?thesis
    by (simp add: bfcl_EvaluateSample_def ex_extract_reused exampleGroundTruth_def
        exampleSample_def Let_def zeroResult_def)
qed





end
